theory Spec2Isabelle
  imports Complex_Main
begin

section \<open>The AES67 sender of ptp-sender.py\<close>

text \<open>
  A shallow embedding of \<^verbatim>\<open>src/ptp-sender.py\<close>: the class
  \<^verbatim>\<open>GstreamerPtpSender\<close> with its methods \<^verbatim>\<open>load_config\<close>,
  \<^verbatim>\<open>init_ptp_clock\<close>, \<^verbatim>\<open>calculate_streams\<close>, \<^verbatim>\<open>create_pipeline\<close>,
  \<^verbatim>\<open>on_bus_message\<close>, \<^verbatim>\<open>start\<close>, \<^verbatim>\<open>stop\<close>, and the function \<^verbatim>\<open>main\<close>.

  Conventions of the model.
  \<^item> Python's unbounded integers are \<open>int\<close>; \<^verbatim>\<open>//\<close> is \<open>div\<close> (both round
    towards minus infinity), and a zero divisor raises \<^verbatim>\<open>ZeroDivisionError\<close>.
  \<^item> Strings are \<open>string\<close>; the characters are taken to be ASCII, so the Unicode
    digits and spaces that Python's \<^verbatim>\<open>int\<close> also accepts are outside the model.
  \<^item> \<^verbatim>\<open>int\<close> and \<^verbatim>\<open>str\<close> convert numerals of any length. Interpreters from
    3.11 on (and the later patch releases of 3.7 to 3.10) refuse by default a
    conversion of more than 4300 digits with a \<^verbatim>\<open>ValueError\<close>; the limit is a
    setting of the interpreter (\<^verbatim>\<open>sys.set_int_max_str_digits\<close>,
    \<^verbatim>\<open>PYTHONINTMAXSTRDIGITS\<close>), not of the program, and the model takes it as
    switched off.
  \<^item> The configuration is the dictionary that \<^verbatim>\<open>json.load\<close> returned. The keys read
    with \<^verbatim>\<open>config[...]\<close> are fields of a record holding values of the JSON type
    the program computes with (integers, strings); the keys read with \<^verbatim>\<open>config.get\<close>
    are optional fields.
  \<^item> A raised exception, \<^verbatim>\<open>sys.exit\<close> and a normal return are the three outcomes
    of a method.
  \<^item> Calls into GStreamer, GLib and the PTP subsystem are recorded, in order, in a
    trace kept in the object's state; what those calls answer is read from an
    environment. Console output (\<^verbatim>\<open>print\<close>) is not recorded.
\<close>

subsection \<open>Python's string operations\<close>

text \<open>\<^verbatim>\<open>s.split(sep)\<close> for a one-character separator: always at least one part.\<close>

fun py_split :: "char \<Rightarrow> string \<Rightarrow> string list" where
  "py_split sep [] = [[]]"
| "py_split sep (c # cs) =
     (if c = sep then [] # py_split sep cs
      else (c # hd (py_split sep cs)) # tl (py_split sep cs))"

text \<open>\<^verbatim>\<open>sep.join(parts)\<close> for a one-character separator.\<close>

fun py_join :: "char \<Rightarrow> string list \<Rightarrow> string" where
  "py_join sep [] = []"
| "py_join sep [p] = p"
| "py_join sep (p # q # ps) = p @ sep # py_join sep (q # ps)"

text \<open>
  \<^verbatim>\<open>str(n)\<close> for an integer: decimal digits, a minus sign when negative, and no
  limit on the number of digits (see the conventions above).
\<close>

definition digit_char :: "nat \<Rightarrow> char" where
  "digit_char d = ''0123456789'' ! d"

fun digits_of :: "nat \<Rightarrow> string" where
  "digits_of n =
     (if n < 10 then [digit_char n] else digits_of (n div 10) @ [digit_char (n mod 10)])"

declare digits_of.simps [simp del]

definition py_str :: "int \<Rightarrow> string" where
  "py_str n = (if n < 0 then CHR ''-'' # digits_of (nat (- n)) else digits_of (nat n))"

text \<open>
  \<^verbatim>\<open>int(s)\<close> for a string, base ten: surrounding whitespace is dropped, one sign
  is allowed, then come digits, with single underscores allowed between two
  digits. \<open>None\<close> stands for the \<^verbatim>\<open>ValueError\<close> Python raises.

  The whitespace that \<^verbatim>\<open>int\<close> skips in an ASCII string is tab, line feed, vertical
  tab, form feed, carriage return and space. The separators 0x1C to 0x1F, which
  \<^verbatim>\<open>str.strip\<close> would drop, are not among them: \<^verbatim>\<open>int\<close> raises on them.
\<close>

definition is_space :: "char \<Rightarrow> bool" where
  "is_space c = (c \<in> set [CHR 0x09, CHR 0x0A, CHR 0x0B, CHR 0x0C, CHR 0x0D, CHR 0x20])"

definition py_strip :: "string \<Rightarrow> string" where
  "py_strip s = rev (dropWhile is_space (rev (dropWhile is_space s)))"

definition digit_val :: "char \<Rightarrow> int option" where
  "digit_val c = map_of (zip ''0123456789'' [0, 1, 2, 3, 4, 5, 6, 7, 8, 9]) c"

fun digits_value :: "int \<Rightarrow> string \<Rightarrow> int option" where
  "digits_value acc [] = Some acc"
| "digits_value acc [c] =
     (case digit_val c of Some v \<Rightarrow> Some (10 * acc + v) | None \<Rightarrow> None)"
| "digits_value acc (c # d # ds) =
     (case digit_val c of
        Some v \<Rightarrow> digits_value (10 * acc + v) (d # ds)
      | None \<Rightarrow>
          if c = CHR ''_'' then
            (case digit_val d of
               Some w \<Rightarrow> digits_value (10 * acc + w) ds
             | None \<Rightarrow> None)
          else None)"

definition unsigned_value :: "string \<Rightarrow> int option" where
  "unsigned_value s =
     (case s of
        [] \<Rightarrow> None
      | c # cs \<Rightarrow> (case digit_val c of Some v \<Rightarrow> digits_value v cs | None \<Rightarrow> None))"

definition py_int :: "string \<Rightarrow> int option" where
  "py_int s =
     (case py_strip s of
        [] \<Rightarrow> None
      | c # cs \<Rightarrow>
          if c = CHR ''-'' then map_option uminus (unsigned_value cs)
          else if c = CHR ''+'' then unsigned_value cs
          else unsigned_value (c # cs))"

subsection \<open>Configuration, stream descriptors, errors\<close>

text \<open>
  The keys of the configuration dictionary that the program reads.
  \<^verbatim>\<open>deviceMode\<close> and \<^verbatim>\<open>ptpDomain\<close> are read with \<^verbatim>\<open>config.get\<close>, so they may
  be absent.
\<close>

record config =
  deviceMode :: "string option"
  ptpDomain :: "int option"
  channelCount :: int
  channelsPerReceiver :: int
  baseMulticastAddress :: string
  rtpDestinationPort :: int
  jackClientName :: string
  samplingRate :: int

text \<open>The dictionary that \<^verbatim>\<open>calculate_streams\<close> builds for one stream.\<close>

record stream =
  index :: int
  multicast :: string
  port :: int
  channels :: int
  start_channel :: int

datatype py_error = ZeroDivisionError | IndexError | ValueError | RuntimeError | AttributeError

datatype 'a outcome = Return 'a | Exit int | Raise py_error

subsection \<open>The collaborators: GStreamer, GLib, the PTP subsystem\<close>

datatype gst_state = NULL | PLAYING

datatype state_change_return = FAILURE | SUCCESS | ASYNC | NO_PREROLL

text \<open>A pipeline handle, named by the index of the stream it was built for.\<close>

datatype pipeline = Pipeline int

datatype clock = PtpClock int

datatype effect =
    GstInit
  | PtpInit
  | PtpClockNew int
  | ConnectSynced
  | WaitForSync
  | ParseLaunch string
  | UseClock pipeline
  | SetStartTime pipeline
  | SetBaseTime pipeline
  | BusConnect pipeline
  | SetState pipeline gst_state
  | MainLoopNew
  | SignalHandlers
  | MainLoopRun
  | MainLoopQuit
  | PtpDeinit

text \<open>What the collaborators answer.\<close>

record env =
  ptp_init_ok :: bool
  ptp_clock_new_ok :: bool
  wait_for_sync_ok :: bool
  parse_launch_ok :: "string \<Rightarrow> bool"
  set_state_ret :: "pipeline \<Rightarrow> gst_state \<Rightarrow> state_change_return"
  main_loop_is_running :: bool

text \<open>The attributes of a \<^verbatim>\<open>GstreamerPtpSender\<close> object, and the trace of calls.\<close>

record sender =
  config :: config
  verbose :: bool
  pipelines :: "pipeline list"
  main_loop :: bool
  ptp_clock :: "clock option"
  trace :: "effect list"

definition emit :: "effect \<Rightarrow> sender \<Rightarrow> sender" where
  "emit e s = s\<lparr>trace := trace s @ [e]\<rparr>"

subsection \<open>calculate_streams\<close>

text \<open>\<^verbatim>\<open>range(n)\<close>: empty when \<open>n \<le> 0\<close>.\<close>

definition py_range :: "int \<Rightarrow> int list" where
  "py_range n = map int [0..<nat n]"

text \<open>
  The body of the loop for index \<open>i\<close>. \<^verbatim>\<open>addr_parts[3]\<close> raises
  \<^verbatim>\<open>IndexError\<close> when the address has fewer than four parts, and \<^verbatim>\<open>int\<close> raises
  \<^verbatim>\<open>ValueError\<close> when the fourth part is not an integer literal.
\<close>

definition stream_at :: "config \<Rightarrow> int \<Rightarrow> py_error + stream" where
  "stream_at cfg i =
     (let channel_count = channelCount cfg;
          channels_per_receiver = channelsPerReceiver cfg;
          base_multicast = baseMulticastAddress cfg;
          base_port = rtpDestinationPort cfg;
          start_channel = i * channels_per_receiver;
          end_channel = min (start_channel + channels_per_receiver) channel_count;
          stream_channels = end_channel - start_channel;
          addr_parts = py_split CHR ''.'' base_multicast
      in if length addr_parts < 4 then Inl IndexError
         else
           (case py_int (addr_parts ! 3) of
              None \<Rightarrow> Inl ValueError
            | Some b \<Rightarrow>
                Inr \<lparr>index = i,
                     multicast = py_join CHR ''.'' (addr_parts[3 := py_str (b + i)]),
                     port = base_port + i,
                     channels = stream_channels,
                     start_channel = start_channel + 1\<rparr>))"

text \<open>The \<^verbatim>\<open>for\<close> loop: it appends one descriptor per index and stops at the first raise.\<close>

fun collect_streams :: "config \<Rightarrow> int list \<Rightarrow> stream list \<Rightarrow> py_error + stream list" where
  "collect_streams cfg [] streams = Inr streams"
| "collect_streams cfg (i # is) streams =
     (case stream_at cfg i of
        Inl e \<Rightarrow> Inl e
      | Inr st \<Rightarrow> collect_streams cfg is (streams @ [st]))"

definition calculate_streams :: "sender \<Rightarrow> py_error + stream list" where
  "calculate_streams self =
     (let channel_count = channelCount (config self);
          channels_per_receiver = channelsPerReceiver (config self)
      in if channels_per_receiver = 0 then Inl ZeroDivisionError
         else
           (let num_streams = (channel_count + channels_per_receiver - 1) div channels_per_receiver
            in collect_streams (config self) (py_range num_streams) []))"

subsection \<open>load_config and the constructor\<close>

text \<open>What opening and parsing the configuration file gives.\<close>

datatype config_file = FileNotFound | InvalidJSON | Parsed config

text \<open>
  The \<^verbatim>\<open>ValueError\<close> raised for a wrong \<^verbatim>\<open>deviceMode\<close> is caught by neither
  \<^verbatim>\<open>except\<close> clause (\<^verbatim>\<open>JSONDecodeError\<close> is a subclass of \<^verbatim>\<open>ValueError\<close>, not the
  other way round), so it leaves \<^verbatim>\<open>load_config\<close>.
\<close>

definition load_config :: "config_file \<Rightarrow> config outcome" where
  "load_config file =
     (case file of
        FileNotFound \<Rightarrow> Exit 1
      | InvalidJSON \<Rightarrow> Exit 1
      | Parsed cfg \<Rightarrow>
          if deviceMode cfg \<noteq> Some ''sender'' then Raise ValueError else Return cfg)"

text \<open>\<^verbatim>\<open>__init__\<close>: \<^verbatim>\<open>Gst.init\<close> comes before \<^verbatim>\<open>load_config\<close>.\<close>

definition new_sender :: "config_file \<Rightarrow> bool \<Rightarrow> sender outcome" where
  "new_sender file verb =
     (case load_config file of
        Return cfg \<Rightarrow>
          Return \<lparr>config = cfg, verbose = verb, pipelines = [], main_loop = False,
                  ptp_clock = None, trace = [GstInit]\<rparr>
      | Exit n \<Rightarrow> Exit n
      | Raise e \<Rightarrow> Raise e)"

subsection \<open>init_ptp_clock\<close>

definition init_ptp_clock :: "env \<Rightarrow> sender \<Rightarrow> sender \<times> bool" where
  "init_ptp_clock ev self =
     (let ptp_domain = (case ptpDomain (config self) of None \<Rightarrow> 0 | Some d \<Rightarrow> d);
          s1 = emit PtpInit self
      in if \<not> ptp_init_ok ev then (s1, False)
         else
           (let s2 = (emit (PtpClockNew ptp_domain) s1)
                       \<lparr>ptp_clock := (if ptp_clock_new_ok ev then Some (PtpClock ptp_domain)
                                      else None)\<rparr>
            in if ptp_clock s2 = None then (s2, False)
               else
                 (let s3 = emit ConnectSynced s2;
                      s4 = emit WaitForSync s3
                  in if wait_for_sync_ok ev then (s4, True) else (s4, True))))"

subsection \<open>create_pipeline\<close>

definition pipeline_str :: "config \<Rightarrow> stream \<Rightarrow> string" where
  "pipeline_str cfg st =
     (let jack_client_name = jackClientName cfg;
          sampling_rate = samplingRate cfg;
          client_name = jack_client_name @ ''_stream'' @ py_str (index st)
      in ''jackaudiosrc client-name='' @ [CHR 0x22] @ client_name @ [CHR 0x22] @ '' connect=0 ! ''
         @ ''audioconvert ! ''
         @ ''audioresample ! ''
         @ ''audio/x-raw,rate='' @ py_str sampling_rate @ '',channels='' @ py_str (channels st)
         @ '' ! ''
         @ ''rtpL24pay pt=96 timestamp-offset=0 ! ''
         @ ''udpsink host='' @ multicast st @ '' port='' @ py_str (port st) @ '' ''
         @ ''auto-multicast=true ttl-mc=32 sync=false async=false'')"

text \<open>
  \<^verbatim>\<open>self.ptp_clock.get_time()\<close> raises \<^verbatim>\<open>AttributeError\<close> on \<^verbatim>\<open>None\<close>; within
  \<^verbatim>\<open>start\<close> the clock is always set by then.
\<close>

definition create_pipeline :: "env \<Rightarrow> sender \<Rightarrow> stream \<Rightarrow> sender \<times> pipeline outcome" where
  "create_pipeline ev self st =
     (let str = pipeline_str (config self) st;
          s1 = emit (ParseLaunch str) self
      in if \<not> parse_launch_ok ev str then (s1, Raise RuntimeError)
         else
           (let pipeline = Pipeline (index st);
                s2 = emit (UseClock pipeline) s1;
                s3 = emit (SetStartTime pipeline) s2
            in if ptp_clock s3 = None then (s3, Raise AttributeError)
               else
                 (let s4 = emit (SetBaseTime pipeline) s3;
                      s5 = emit (BusConnect pipeline) s4
                  in (s5, Return pipeline))))"

subsection \<open>stop\<close>

text \<open>
  \<^verbatim>\<open>stop\<close> sets every pipeline of \<^verbatim>\<open>self.pipelines\<close> to \<^verbatim>\<open>NULL\<close>, quits a running
  main loop, calls \<^verbatim>\<open>ptp_deinit\<close> when a clock exists, and ends in \<^verbatim>\<open>sys.exit(0)\<close>.
  It assigns no attribute of the object.
\<close>

fun stop_pipelines :: "pipeline list \<Rightarrow> sender \<Rightarrow> sender" where
  "stop_pipelines [] s = s"
| "stop_pipelines (pipeline # rest) s = stop_pipelines rest (emit (SetState pipeline NULL) s)"

definition stop :: "env \<Rightarrow> sender \<Rightarrow> sender \<times> unit outcome" where
  "stop ev self =
     (let s1 = stop_pipelines (pipelines self) self;
          s2 = (if main_loop s1 \<and> main_loop_is_running ev then emit MainLoopQuit s1 else s1);
          s3 = (if ptp_clock s2 \<noteq> None then emit PtpDeinit s2 else s2)
      in (s3, Exit 0))"

subsection \<open>on_bus_message and the other triggers\<close>

datatype message_type = ERROR | EOS | WARNING | STATE_CHANGED | OTHER

text \<open>\<^verbatim>\<open>xs[i]\<close>: a negative index counts from the end; out of range is \<^verbatim>\<open>IndexError\<close>.\<close>

definition py_index :: "'a list \<Rightarrow> int \<Rightarrow> 'a option" where
  "py_index xs i =
     (if 0 \<le> i \<and> i < int (length xs) then Some (xs ! nat i)
      else if i < 0 \<and> - int (length xs) \<le> i then Some (xs ! nat (int (length xs) + i))
      else None)"

definition on_bus_message :: "env \<Rightarrow> sender \<Rightarrow> message_type \<Rightarrow> int \<Rightarrow> sender \<times> unit outcome" where
  "on_bus_message ev self t stream_index =
     (case t of
        ERROR \<Rightarrow> stop ev self
      | EOS \<Rightarrow> stop ev self
      | WARNING \<Rightarrow> (self, Return ())
      | STATE_CHANGED \<Rightarrow>
          (case py_index (pipelines self) stream_index of
             None \<Rightarrow> (self, Raise IndexError)
           | Some p \<Rightarrow> (self, Return ()))
      | OTHER \<Rightarrow> (self, Return ()))"

text \<open>
  What can reach the object while the main loop runs: a bus message of a stream, the
  handler installed for \<^verbatim>\<open>SIGINT\<close> and \<^verbatim>\<open>SIGTERM\<close>, and the \<^verbatim>\<open>KeyboardInterrupt\<close>
  caught around \<^verbatim>\<open>main_loop.run()\<close>.
\<close>

datatype event = BusMessage message_type int | Signal | KeyboardInterrupt

definition handle_event :: "env \<Rightarrow> sender \<Rightarrow> event \<Rightarrow> sender \<times> unit outcome" where
  "handle_event ev self e =
     (case e of
        BusMessage t i \<Rightarrow> on_bus_message ev self t i
      | Signal \<Rightarrow> stop ev self
      | KeyboardInterrupt \<Rightarrow> stop ev self)"

subsection \<open>start and main\<close>

text \<open>The loop of \<^verbatim>\<open>start\<close> that creates and starts one pipeline per stream.\<close>

fun start_pipelines :: "env \<Rightarrow> sender \<Rightarrow> stream list \<Rightarrow> sender \<times> unit outcome" where
  "start_pipelines ev s [] = (s, Return ())"
| "start_pipelines ev s (st # sts) =
     (case create_pipeline ev s st of
        (s1, Raise e) \<Rightarrow> (s1, Raise e)
      | (s1, Exit n) \<Rightarrow> (s1, Exit n)
      | (s1, Return pipeline) \<Rightarrow>
          (let s2 = s1\<lparr>pipelines := pipelines s1 @ [pipeline]\<rparr>;
               s3 = emit (SetState pipeline PLAYING) s2;
               ret = set_state_ret ev pipeline PLAYING
           in if ret = FAILURE then (s3, Exit 1)
              else start_pipelines ev s3 sts))"

text \<open>
  \<^verbatim>\<open>start\<close>, up to the point where \<^verbatim>\<open>main_loop.run()\<close> is entered: the outcome
  \<open>Return ()\<close> says that the main loop is running.
\<close>

definition start :: "env \<Rightarrow> sender \<Rightarrow> sender \<times> unit outcome" where
  "start ev self =
     (case init_ptp_clock ev self of
        (s1, False) \<Rightarrow> (s1, Exit 1)
      | (s1, True) \<Rightarrow>
          (case calculate_streams s1 of
             Inl e \<Rightarrow> (s1, Raise e)
           | Inr streams \<Rightarrow>
               (case start_pipelines ev s1 streams of
                  (s2, Raise e) \<Rightarrow> (s2, Raise e)
                | (s2, Exit n) \<Rightarrow> (s2, Exit n)
                | (s2, Return u) \<Rightarrow>
                    (let s3 = (emit MainLoopNew s2)\<lparr>main_loop := True\<rparr>;
                         s4 = emit SignalHandlers s3;
                         s5 = emit MainLoopRun s4
                     in (s5, Return ())))))"

text \<open>\<^verbatim>\<open>main\<close>: construct the sender, then start it. The result is the trace and the outcome.\<close>

definition main :: "env \<Rightarrow> config_file \<Rightarrow> bool \<Rightarrow> effect list \<times> unit outcome" where
  "main ev file verb =
     (case new_sender file verb of
        Return sender \<Rightarrow> (case start ev sender of (s, r) \<Rightarrow> (trace s, r))
      | Exit n \<Rightarrow> ([GstInit], Exit n)
      | Raise e \<Rightarrow> ([GstInit], Raise e))"

text \<open>
  The status the process ends with: the argument of \<^verbatim>\<open>sys.exit\<close>, or 1 for an
  exception nobody catches.
\<close>

definition exit_status :: "'a outcome \<Rightarrow> int option" where
  "exit_status r = (case r of Return x \<Rightarrow> None | Exit n \<Rightarrow> Some n | Raise e \<Rightarrow> Some 1)"

subsection \<open>Notions used in the statements and proofs\<close>

text \<open>The channels a descriptor carries, numbered from 1 as \<^verbatim>\<open>start_channel\<close> is.\<close>

definition channel_range :: "stream \<Rightarrow> int set" where
  "channel_range st = {start_channel st ..< start_channel st + channels st}"

text \<open>The integer that component \<open>k\<close> (from 0) of a dotted address reads as, if any.\<close>

definition address_part :: "nat \<Rightarrow> string \<Rightarrow> int option" where
  "address_part k a =
     (let parts = py_split CHR ''.'' a
      in if k < length parts then py_int (parts ! k) else None)"

definition last_part :: "string \<Rightarrow> int option" where
  "last_part a = py_int (last (py_split CHR ''.'' a))"

text \<open>
  The descriptor that the loop body builds for index \<open>i\<close> when the fourth part of the
  base address reads as \<open>b\<close>.
\<close>

definition descriptor :: "config \<Rightarrow> int \<Rightarrow> int \<Rightarrow> stream" where
  "descriptor cfg b i =
     \<lparr>index = i,
      multicast = py_join CHR ''.''
                    ((py_split CHR ''.'' (baseMulticastAddress cfg))[3 := py_str (b + i)]),
      port = rtpDestinationPort cfg + i,
      channels = min (i * channelsPerReceiver cfg + channelsPerReceiver cfg) (channelCount cfg)
                   - i * channelsPerReceiver cfg,
      start_channel = i * channelsPerReceiver cfg + 1\<rparr>"

text \<open>One step of reading a decimal numeral from the left.\<close>

definition digit_step :: "int \<Rightarrow> char \<Rightarrow> int" where
  "digit_step a c = 10 * a + the (digit_val c)"

text \<open>The calls \<^verbatim>\<open>create_pipeline\<close> and \<^verbatim>\<open>set_state(PLAYING)\<close> make for one stream.\<close>

definition pipeline_calls :: "config \<Rightarrow> stream \<Rightarrow> effect list" where
  "pipeline_calls cfg st =
     [ParseLaunch (pipeline_str cfg st),
      UseClock (Pipeline (index st)),
      SetStartTime (Pipeline (index st)),
      SetBaseTime (Pipeline (index st)),
      BusConnect (Pipeline (index st)),
      SetState (Pipeline (index st)) PLAYING]"

text \<open>The calls of \<^verbatim>\<open>init_ptp_clock\<close> when the subsystem and the clock come up.\<close>

definition clock_calls :: "config \<Rightarrow> effect list" where
  "clock_calls cfg =
     [PtpInit, PtpClockNew (case ptpDomain cfg of None \<Rightarrow> 0 | Some d \<Rightarrow> d),
      ConnectSynced, WaitForSync]"

text \<open>The calls one run of the body of \<^verbatim>\<open>stop\<close> makes.\<close>

definition stop_calls :: "env \<Rightarrow> sender \<Rightarrow> effect list" where
  "stop_calls ev self =
     map (\<lambda>p. SetState p NULL) (pipelines self)
     @ (if main_loop self \<and> main_loop_is_running ev then [MainLoopQuit] else [])
     @ (if ptp_clock self \<noteq> None then [PtpDeinit] else [])"

text \<open>The calls that belong to shutting down: stopping a pipeline, releasing the clock.\<close>

fun is_shutdown_call :: "effect \<Rightarrow> bool" where
  "is_shutdown_call (SetState p NULL) = True"
| "is_shutdown_call PtpDeinit = True"
| "is_shutdown_call e = False"

definition shutdown_calls :: "effect list \<Rightarrow> effect list" where
  "shutdown_calls tr = filter is_shutdown_call tr"

subsection \<open>Example inputs\<close>

text \<open>The first scenario of the specification: 16 channels, 8 per receiver.\<close>

definition example_config :: config where
  "example_config =
     \<lparr>deviceMode = Some ''sender'', ptpDomain = None, channelCount = 16,
      channelsPerReceiver = 8, baseMulticastAddress = ''239.1.1.0'',
      rtpDestinationPort = 5004, jackClientName = ''aes67'', samplingRate = 48000\<rparr>"

text \<open>The two descriptors the specification lists for it.\<close>

definition example_descriptors :: "stream list" where
  "example_descriptors =
     [\<lparr>index = 0, multicast = ''239.1.1.0'', port = 5004, channels = 8, start_channel = 1\<rparr>,
      \<lparr>index = 1, multicast = ''239.1.1.1'', port = 5005, channels = 8, start_channel = 9\<rparr>]"

definition example_sender :: sender where
  "example_sender =
     \<lparr>config = example_config, verbose = False, pipelines = [], main_loop = False,
      ptp_clock = None, trace = [GstInit]\<rparr>"

text \<open>Two streams from a base address whose last octet is already 255.\<close>

definition overflow_sender :: sender where
  "overflow_sender =
     example_sender
       \<lparr>config := example_config
          \<lparr>channelCount := 2, channelsPerReceiver := 1,
           baseMulticastAddress := ''239.1.1.255''\<rparr>\<rparr>"

text \<open>The same with a base address of five parts.\<close>

definition five_part_sender :: sender where
  "five_part_sender =
     example_sender
       \<lparr>config := example_config
          \<lparr>channelCount := 2, channelsPerReceiver := 1,
           baseMulticastAddress := ''1.2.3.255.9''\<rparr>\<rparr>"

text \<open>A base address whose fourth part starts with the separator 0x1F.\<close>

definition separator_sender :: sender where
  "separator_sender =
     example_sender
       \<lparr>config := example_config
          \<lparr>baseMulticastAddress := ''239.1.1.'' @ [CHR 0x1F] @ ''5''\<rparr>\<rparr>"

text \<open>A configuration without channels.\<close>

definition no_channel_sender :: sender where
  "no_channel_sender = example_sender\<lparr>config := example_config\<lparr>channelCount := 0\<rparr>\<rparr>"

text \<open>A sender whose two pipelines run under a clock, inside the main loop.\<close>

definition running_sender :: sender where
  "running_sender =
     \<lparr>config = example_config, verbose = False, pipelines = [Pipeline 0, Pipeline 1],
      main_loop = True, ptp_clock = Some (PtpClock 0), trace = []\<rparr>"

text \<open>Collaborators that all succeed, but the clock does not synchronise in time.\<close>

definition timeout_env :: env where
  "timeout_env =
     \<lparr>ptp_init_ok = True, ptp_clock_new_ok = True, wait_for_sync_ok = False,
      parse_launch_ok = (\<lambda>str. True), set_state_ret = (\<lambda>p t. ASYNC),
      main_loop_is_running = True\<rparr>"

text \<open>The same collaborators once the main loop has been quit.\<close>

definition quit_env :: env where
  "quit_env = timeout_env\<lparr>main_loop_is_running := False\<rparr>"

text \<open>Collaborators where the second pipeline cannot reach \<^verbatim>\<open>PLAYING\<close>.\<close>

definition failing_env :: env where
  "failing_env =
     \<lparr>ptp_init_ok = True, ptp_clock_new_ok = True, wait_for_sync_ok = True,
      parse_launch_ok = (\<lambda>str. True),
      set_state_ret = (\<lambda>p t. if p = Pipeline 1 \<and> t = PLAYING then FAILURE else SUCCESS),
      main_loop_is_running = True\<rparr>"

section \<open>Facts about the model\<close>

subsection \<open>Strings: splitting, joining, reading and writing integers\<close>

lemma py_split_not_Nil [simp]: "py_split sep s \<noteq> []"
  by (induction s) simp_all

lemma py_split_no_sep: "p \<in> set (py_split sep s) \<Longrightarrow> sep \<notin> set p"
proof (induction s arbitrary: p)
  case Nil
  then show ?case by simp
next
  case (Cons c cs)
  obtain q qs where q: "py_split sep cs = q # qs"
    by (cases "py_split sep cs") simp_all
  with Cons show ?case
    by (auto split: if_splits)
qed

lemma py_split_plain: "sep \<notin> set p \<Longrightarrow> py_split sep p = [p]"
  by (induction p) auto

lemma py_split_append_sep:
  "sep \<notin> set p \<Longrightarrow> py_split sep (p @ sep # rest) = p # py_split sep rest"
  by (induction p) auto

lemma py_split_join:
  "ps \<noteq> [] \<Longrightarrow> \<forall>p \<in> set ps. sep \<notin> set p \<Longrightarrow> py_split sep (py_join sep ps) = ps"
  by (induction sep ps rule: py_join.induct) (simp_all add: py_split_plain py_split_append_sep)

lemma digit_val_digit_char: "d < 10 \<Longrightarrow> digit_val (digit_char d) = Some (int d)"
proof -
  assume "d < 10"
  then have "d \<in> {0, 1, 2, 3, 4, 5, 6, 7, 8, 9}" by auto
  then show ?thesis
    by (auto simp: digit_val_def digit_char_def)
qed

lemma digit_char_plain:
  "d < 10 \<Longrightarrow> digit_char d \<noteq> CHR ''.'' \<and> digit_char d \<noteq> CHR ''-'' \<and> digit_char d \<noteq> CHR ''+''
     \<and> \<not> is_space (digit_char d)"
proof -
  assume "d < 10"
  then have "d \<in> {0, 1, 2, 3, 4, 5, 6, 7, 8, 9}" by auto
  then show ?thesis
    by (auto simp: digit_char_def is_space_def)
qed

lemma digits_value_all_digits:
  "\<forall>c \<in> set xs. digit_val c \<noteq> None \<Longrightarrow> digits_value acc xs = Some (foldl digit_step acc xs)"
  by (induction acc xs rule: digits_value.induct) (auto simp: digit_step_def)

lemma digits_of_digits: "\<forall>c \<in> set (digits_of n). \<exists>d < 10. c = digit_char d"
proof (induction n rule: digits_of.induct)
  case (1 n)
  show ?case
  proof (cases "n < 10")
    case True
    then show ?thesis by (subst digits_of.simps) auto
  next
    case False
    with 1 show ?thesis
      by (subst digits_of.simps) (auto intro: exI [of _ "n mod 10"])
  qed
qed

lemma digits_of_not_Nil [simp]: "digits_of n \<noteq> []"
  by (subst digits_of.simps) simp

lemma foldl_digits_of: "foldl digit_step 0 (digits_of n) = int n"
proof (induction n rule: digits_of.induct)
  case (1 n)
  show ?case
  proof (cases "n < 10")
    case True
    then show ?thesis
      by (subst digits_of.simps) (simp add: digit_step_def digit_val_digit_char)
  next
    case False
    with 1 have "foldl digit_step 0 (digits_of (n div 10)) = int (n div 10)" by simp
    with False show ?thesis
      by (subst digits_of.simps) (simp add: digit_step_def digit_val_digit_char zdiv_int zmod_int)
  qed
qed

lemma unsigned_value_digits_of: "unsigned_value (digits_of n) = Some (int n)"
proof -
  obtain c cs where cs: "digits_of n = c # cs"
    by (cases "digits_of n") simp_all
  have all: "\<forall>c \<in> set (c # cs). digit_val c \<noteq> None"
    using digits_of_digits [of n] unfolding cs by (auto simp: digit_val_digit_char)
  then obtain v where v: "digit_val c = Some v" by auto
  have "unsigned_value (c # cs) = Some (foldl digit_step v cs)"
    using all v by (simp add: unsigned_value_def digits_value_all_digits)
  also have "foldl digit_step v cs = foldl digit_step 0 (c # cs)"
    using v by (simp add: digit_step_def)
  finally show ?thesis
    unfolding cs [symmetric] by (simp add: foldl_digits_of)
qed

lemma py_strip_plain: "\<forall>c \<in> set s. \<not> is_space c \<Longrightarrow> py_strip s = s"
proof -
  assume a: "\<forall>c \<in> set s. \<not> is_space c"
  have "dropWhile is_space s = s"
    using a by (cases s) simp_all
  moreover have "dropWhile is_space (rev s) = rev s"
    using a by (cases "rev s") (auto simp: rev_eq_Cons_iff)
  ultimately show ?thesis
    by (simp add: py_strip_def)
qed

lemma digits_of_plain:
  assumes "c \<in> set (digits_of n)"
  shows "c \<noteq> CHR ''.'' \<and> c \<noteq> CHR ''-'' \<and> c \<noteq> CHR ''+'' \<and> \<not> is_space c"
proof -
  from assms digits_of_digits [of n] obtain d where "d < 10" "c = digit_char d"
    by blast
  then show ?thesis
    using digit_char_plain [of d] by simp
qed

lemma py_str_chars:
  assumes "c \<in> set (py_str n)"
  shows "c \<noteq> CHR ''.'' \<and> \<not> is_space c"
proof (cases "c = CHR ''-''")
  case True
  then show ?thesis by (simp add: is_space_def)
next
  case False
  with assms have "c \<in> set (digits_of (nat (- n))) \<or> c \<in> set (digits_of (nat n))"
    by (auto simp: py_str_def split: if_splits)
  then show ?thesis
    using digits_of_plain by blast
qed

lemma py_int_py_str: "py_int (py_str n) = Some n"
proof (cases "n < 0")
  case True
  have strip: "py_strip (py_str n) = py_str n"
    by (intro py_strip_plain) (simp add: py_str_chars)
  have str: "py_str n = CHR ''-'' # digits_of (nat (- n))"
    using True by (simp add: py_str_def)
  have "py_int (py_str n) = map_option uminus (unsigned_value (digits_of (nat (- n))))"
    unfolding py_int_def strip unfolding str by simp
  also have "\<dots> = Some (- int (nat (- n)))"
    unfolding unsigned_value_digits_of by simp
  finally show ?thesis
    using True by simp
next
  case False
  obtain c cs where cs: "digits_of (nat n) = c # cs"
    by (cases "digits_of (nat n)") simp_all
  then have "c \<in> set (digits_of (nat n))"
    by simp
  then have c: "c \<noteq> CHR ''-''" "c \<noteq> CHR ''+''"
    using digits_of_plain by blast+
  have strip: "py_strip (py_str n) = py_str n"
    by (intro py_strip_plain) (simp add: py_str_chars)
  have str: "py_str n = c # cs"
    using False by (simp add: py_str_def cs)
  have "py_int (py_str n) = unsigned_value (c # cs)"
    unfolding py_int_def strip unfolding str using c by simp
  also have "\<dots> = Some (int (nat n))"
    unfolding cs [symmetric] by (rule unsigned_value_digits_of)
  finally show ?thesis
    using False by simp
qed

lemma py_int_skips_ascii_whitespace:
  "py_int ([CHR 0x09, CHR 0x0A, CHR 0x0B, CHR 0x0C, CHR 0x0D, CHR 0x20] @ ''+1_0''
             @ [CHR 0x20, CHR 0x0D, CHR 0x0C, CHR 0x0B, CHR 0x0A, CHR 0x09]) = Some 10"
  by code_simp

lemma py_int_refuses_separators:
  "py_int ([CHR 0x1C] @ ''5'') = None" "py_int ([CHR 0x1D] @ ''5'') = None"
  "py_int ([CHR 0x1E] @ ''5'') = None" "py_int ([CHR 0x1F] @ ''5'') = None"
  "py_int (''5'' @ [CHR 0x1C]) = None" "py_int (''5'' @ [CHR 0x1F]) = None"
  by code_simp+

lemma py_str_no_dot: "CHR ''.'' \<notin> set (py_str n)"
  using py_str_chars by blast

lemma address_part_rewritten:
  assumes "k < length parts" and "\<forall>p \<in> set parts. CHR ''.'' \<notin> set p"
  shows "address_part k (py_join CHR ''.'' (parts[k := py_str v])) = Some v"
proof -
  let ?parts = "parts[k := py_str v]"
  have "\<forall>p \<in> set ?parts. CHR ''.'' \<notin> set p"
    using assms(2) py_str_no_dot by (auto dest!: set_update_subset_insert [THEN subsetD])
  moreover have "?parts \<noteq> []"
    using assms(1) by auto
  ultimately have "py_split CHR ''.'' (py_join CHR ''.'' ?parts) = ?parts"
    by (rule py_split_join [rotated])
  then show ?thesis
    using assms(1) by (simp add: address_part_def py_int_py_str)
qed

subsection \<open>calculate_streams in closed form\<close>

lemma stream_at_ok:
  assumes "4 \<le> length (py_split CHR ''.'' (baseMulticastAddress cfg))"
    and "py_int (py_split CHR ''.'' (baseMulticastAddress cfg) ! 3) = Some b"
  shows "stream_at cfg i = Inr (descriptor cfg b i)"
  using assms by (simp add: stream_at_def descriptor_def Let_def)

lemma collect_streams_ok:
  assumes "4 \<le> length (py_split CHR ''.'' (baseMulticastAddress cfg))"
    and "py_int (py_split CHR ''.'' (baseMulticastAddress cfg) ! 3) = Some b"
  shows "collect_streams cfg is acc = Inr (acc @ map (descriptor cfg b) is)"
  by (induction "is" arbitrary: acc) (simp_all add: stream_at_ok [OF assms])

lemma calculate_streams_ok:
  assumes "channelsPerReceiver (config self) \<noteq> 0"
    and "4 \<le> length (py_split CHR ''.'' (baseMulticastAddress (config self)))"
    and "py_int (py_split CHR ''.'' (baseMulticastAddress (config self)) ! 3) = Some b"
  shows "calculate_streams self =
           Inr (map (descriptor (config self) b)
                  (py_range ((channelCount (config self) + channelsPerReceiver (config self) - 1)
                               div channelsPerReceiver (config self))))"
  using assms(1) by (simp add: calculate_streams_def Let_def collect_streams_ok [OF assms(2,3)])

lemma calculate_streams_empty:
  assumes "channelsPerReceiver (config self) \<noteq> 0"
    and "(channelCount (config self) + channelsPerReceiver (config self) - 1)
           div channelsPerReceiver (config self) \<le> 0"
  shows "calculate_streams self = Inr []"
  using assms by (simp add: calculate_streams_def Let_def py_range_def)

lemma calculate_streams_zero:
  "channelsPerReceiver (config self) = 0 \<Longrightarrow> calculate_streams self = Inl ZeroDivisionError"
  by (simp add: calculate_streams_def Let_def)

lemma num_streams_bounds:
  fixes cc cpr :: int
  assumes "0 < cpr"
  shows "cc \<le> ((cc + cpr - 1) div cpr) * cpr" and "((cc + cpr - 1) div cpr) * cpr < cc + cpr"
proof -
  let ?x = "cc + cpr - 1"
  have "?x = (?x div cpr) * cpr + ?x mod cpr" by simp
  moreover have "0 \<le> ?x mod cpr" "?x mod cpr < cpr" using assms by simp_all
  ultimately show "cc \<le> (?x div cpr) * cpr" and "(?x div cpr) * cpr < cc + cpr"
    by linarith+
qed

lemma num_streams_ceiling:
  fixes cc cpr :: int
  assumes "0 < cpr"
  shows "(cc + cpr - 1) div cpr = \<lceil>real_of_int cc / real_of_int cpr\<rceil>"
proof -
  let ?n = "(cc + cpr - 1) div cpr"
  have "real_of_int cc \<le> real_of_int (?n * cpr)" 
    using num_streams_bounds(1) [OF assms, of cc] by linarith
  then have a: "real_of_int cc / real_of_int cpr \<le> real_of_int ?n"
    using assms by (simp add: pos_divide_le_eq)
  have "real_of_int (?n * cpr) < real_of_int (cc + cpr)"
    using num_streams_bounds(2) [OF assms, of cc] by linarith
  then have "(real_of_int ?n - 1) * real_of_int cpr < real_of_int cc"
    by (simp add: algebra_simps)
  then have b: "real_of_int ?n - 1 < real_of_int cc / real_of_int cpr"
    using assms by (simp add: pos_less_divide_eq)
  show ?thesis
    using a b by (intro ceiling_unique [symmetric]) simp_all
qed

lemma num_streams_nonpos:
  fixes cc cpr :: int
  assumes "0 < cpr" and "cc \<le> 0"
  shows "(cc + cpr - 1) div cpr \<le> 0"
proof -
  have "((cc + cpr - 1) div cpr) * cpr < cpr"
    using num_streams_bounds(2) [OF assms(1), of cc] assms(2) by linarith
  then have "((cc + cpr - 1) div cpr) * cpr < 1 * cpr" by simp
  then have "(cc + cpr - 1) div cpr < 1"
    using assms(1) by (simp only: mult_less_cancel_right)
  then show ?thesis by simp
qed

lemma index_below:
  fixes cc cpr i n :: int
  assumes "0 < cpr" and "n = (cc + cpr - 1) div cpr" and "0 \<le> i" and "i < n"
  shows "i * cpr < cc"
proof -
  have "i + 1 \<le> n" using assms(4) by simp
  then have "(i + 1) * cpr \<le> n * cpr"
    using assms(1) by (intro mult_right_mono) simp_all
  moreover have "n * cpr < cc + cpr"
    unfolding assms(2) by (rule num_streams_bounds(2) [OF assms(1)])
  ultimately show ?thesis
    by (simp add: algebra_simps)
qed


lemma channel_range_descriptor:
  "channel_range (descriptor cfg b i) =
     {i * channelsPerReceiver cfg + 1 ..<
        min (i * channelsPerReceiver cfg + channelsPerReceiver cfg) (channelCount cfg) + 1}"
  by (auto simp: channel_range_def descriptor_def)

lemma descriptor_fields [simp]:
  "index (descriptor cfg b i) = i"
  "port (descriptor cfg b i) = rtpDestinationPort cfg + i"
  "start_channel (descriptor cfg b i) = i * channelsPerReceiver cfg + 1"
  "channels (descriptor cfg b i) =
     min (i * channelsPerReceiver cfg + channelsPerReceiver cfg) (channelCount cfg)
       - i * channelsPerReceiver cfg"
  "multicast (descriptor cfg b i) =
     py_join CHR ''.'' ((py_split CHR ''.'' (baseMulticastAddress cfg))[3 := py_str (b + i)])"
  by (simp_all add: descriptor_def)

lemma ranges_disjoint:
  fixes i j :: int
  assumes "0 < channelsPerReceiver cfg" and "i < j"
  shows "channel_range (descriptor cfg b i) \<inter> channel_range (descriptor cfg b j) = {}"
proof -
  have "i + 1 \<le> j" using assms(2) by simp
  then have "(i + 1) * channelsPerReceiver cfg \<le> j * channelsPerReceiver cfg"
    using assms(1) by (intro mult_right_mono) simp_all
  then have "i * channelsPerReceiver cfg + channelsPerReceiver cfg \<le> j * channelsPerReceiver cfg"
    by (simp add: algebra_simps)
  then show ?thesis
    unfolding channel_range_descriptor by auto
qed

lemma ranges_cover:
  fixes cc cpr :: int
  assumes cc: "channelCount cfg = cc" and cpr: "channelsPerReceiver cfg = cpr"
    and pos: "0 < cpr"
  shows "(\<Union>i \<in> {0..<(cc + cpr - 1) div cpr}. channel_range (descriptor cfg b i)) = {1..cc}"
proof (intro set_eqI iffI)
  fix x
  assume "x \<in> (\<Union>i \<in> {0..<(cc + cpr - 1) div cpr}. channel_range (descriptor cfg b i))"
  then obtain i where i: "0 \<le> i" and x: "x \<in> channel_range (descriptor cfg b i)"
    by auto
  have "0 \<le> i * cpr" using i pos by simp
  with x show "x \<in> {1..cc}"
    unfolding channel_range_descriptor cc cpr by auto
next
  fix x
  assume x: "x \<in> {1..cc}"
  let ?i = "(x - 1) div cpr"
  have eq: "x - 1 = ?i * cpr + (x - 1) mod cpr" by simp
  have m: "0 \<le> (x - 1) mod cpr" "(x - 1) mod cpr < cpr" using pos by simp_all
  have lo: "?i * cpr \<le> x - 1" and hi: "x - 1 < ?i * cpr + cpr"
    using eq m by linarith+
  have i0: "0 \<le> ?i"
    using x pos by (simp add: pos_imp_zdiv_nonneg_iff)
  have "?i * cpr < ((cc + cpr - 1) div cpr) * cpr"
    using lo x num_streams_bounds(1) [OF pos, of cc] by simp
  then have iN: "?i < (cc + cpr - 1) div cpr"
    using pos by (simp only: mult_less_cancel_right)
  have "x \<in> channel_range (descriptor cfg b ?i)"
    unfolding channel_range_descriptor cc cpr using lo hi x by auto
  with i0 iN show "x \<in> (\<Union>i \<in> {0..<(cc + cpr - 1) div cpr}. channel_range (descriptor cfg b i))"
    by auto
qed

lemma set_py_range: "set (py_range n) = {0..<n}"
  by (auto simp: py_range_def image_int_atLeastLessThan)

lemma length_py_range: "length (py_range n) = nat n"
  by (simp add: py_range_def)

lemma nth_py_range: "i < nat n \<Longrightarrow> py_range n ! i = int i"
  by (simp add: py_range_def)

subsection \<open>calculate_streams: what it reads, and the examples\<close>

lemma stream_at_cong:
  assumes "channelCount c1 = channelCount c2"
    and "channelsPerReceiver c1 = channelsPerReceiver c2"
    and "baseMulticastAddress c1 = baseMulticastAddress c2"
    and "rtpDestinationPort c1 = rtpDestinationPort c2"
  shows "stream_at c1 i = stream_at c2 i"
  using assms by (simp add: stream_at_def)

lemma collect_streams_cong:
  assumes "channelCount c1 = channelCount c2"
    and "channelsPerReceiver c1 = channelsPerReceiver c2"
    and "baseMulticastAddress c1 = baseMulticastAddress c2"
    and "rtpDestinationPort c1 = rtpDestinationPort c2"
  shows "collect_streams c1 is acc = collect_streams c2 is acc"
  by (induction "is" arbitrary: acc) (simp_all add: stream_at_cong [OF assms] split: sum.splits)

lemma example_address:
  "4 \<le> length (py_split CHR ''.'' (baseMulticastAddress (config example_sender)))"
  "py_int (py_split CHR ''.'' (baseMulticastAddress (config example_sender)) ! 3) = Some 0"
  by code_simp+

lemma separator_address_raises: "calculate_streams separator_sender = Inl ValueError"
  by code_simp

lemma overflow_streams:
  "calculate_streams overflow_sender =
     Inr [\<lparr>index = 0, multicast = ''239.1.1.255'', port = 5004, channels = 1, start_channel = 1\<rparr>,
          \<lparr>index = 1, multicast = ''239.1.1.256'', port = 5005, channels = 1, start_channel = 2\<rparr>]"
  by code_simp

lemma overflow_address:
  "4 \<le> length (py_split CHR ''.'' (baseMulticastAddress (config overflow_sender)))"
  "length (py_split CHR ''.'' (baseMulticastAddress (config overflow_sender))) = 4"
  "py_int (py_split CHR ''.'' (baseMulticastAddress (config overflow_sender)) ! 3) = Some 255"
  by code_simp+

lemma last_part_rewritten:
  assumes "length parts = 4" and "\<forall>p \<in> set parts. CHR ''.'' \<notin> set p"
  shows "last_part (py_join CHR ''.'' (parts[3 := py_str v])) = Some v"
proof -
  let ?parts = "parts[3 := py_str v]"
  have "\<forall>p \<in> set ?parts. CHR ''.'' \<notin> set p"
    using assms(2) py_str_no_dot by (auto dest!: set_update_subset_insert [THEN subsetD])
  moreover have ne: "?parts \<noteq> []"
    using assms(1) by auto
  ultimately have "py_split CHR ''.'' (py_join CHR ''.'' ?parts) = ?parts"
    by (rule py_split_join [rotated])
  moreover have "last ?parts = py_str v"
    using assms(1) ne by (simp add: last_conv_nth)
  ultimately show ?thesis
    by (simp add: last_part_def py_int_py_str)
qed

subsection \<open>The lifecycle: what each method appends to the trace\<close>

lemma emit_simps [simp]:
  "trace (emit e s) = trace s @ [e]" "config (emit e s) = config s"
  "pipelines (emit e s) = pipelines s" "ptp_clock (emit e s) = ptp_clock s"
  "main_loop (emit e s) = main_loop s" "verbose (emit e s) = verbose s"
  by (simp_all add: emit_def)

lemma create_pipeline_ok:
  assumes "parse_launch_ok ev (pipeline_str (config s) st)" and "ptp_clock s \<noteq> None"
  shows "create_pipeline ev s st =
           (s\<lparr>trace := trace s @ butlast (pipeline_calls (config s) st)\<rparr>,
            Return (Pipeline (index st)))"
  using assms by (simp add: create_pipeline_def Let_def pipeline_calls_def emit_def)


lemma start_pipelines_step:
  assumes "ptp_clock s \<noteq> None" "parse_launch_ok ev (pipeline_str (config s) st)"
  shows "start_pipelines ev s (st # sts) =
          (let s3 = s\<lparr>pipelines := pipelines s @ [Pipeline (index st)],
               trace := trace s @ pipeline_calls (config s) st\<rparr>
           in if set_state_ret ev (Pipeline (index st)) PLAYING = FAILURE then (s3, Exit 1)
              else start_pipelines ev s3 sts)"
  using assms apply (simp add: create_pipeline_ok Let_def)
  apply (simp add: emit_def pipeline_calls_def)
  done

lemma start_pipelines_ok:
  assumes "ptp_clock s \<noteq> None"
    and "\<forall>st \<in> set sts. parse_launch_ok ev (pipeline_str (config s) st)
           \<and> set_state_ret ev (Pipeline (index st)) PLAYING \<noteq> FAILURE"
  shows "start_pipelines ev s sts =
           (s\<lparr>pipelines := pipelines s @ map (\<lambda>st. Pipeline (index st)) sts,
              trace := trace s @ concat (map (pipeline_calls (config s)) sts)\<rparr>,
            Return ())"
  using assms
proof (induction sts arbitrary: s)
  case Nil
  then show ?case by simp
next
  case (Cons st sts)
  let ?s3 = "s\<lparr>pipelines := pipelines s @ [Pipeline (index st)],
               trace := trace s @ pipeline_calls (config s) st\<rparr>"
  have step: "start_pipelines ev s (st # sts) = start_pipelines ev ?s3 sts"
    using Cons.prems by (simp add: start_pipelines_step del: start_pipelines.simps)
  have c: "ptp_clock ?s3 \<noteq> None" using Cons.prems by simp
  have a: "\<forall>st \<in> set sts. parse_launch_ok ev (pipeline_str (config ?s3) st)
           \<and> set_state_ret ev (Pipeline (index st)) PLAYING \<noteq> FAILURE"
    using Cons.prems by simp
  show ?case
    unfolding step Cons.IH [OF c a] by simp
qed

lemma start_pipelines_failure:
  assumes "ptp_clock s \<noteq> None"
    and "\<forall>st \<in> set pre. parse_launch_ok ev (pipeline_str (config s) st)
           \<and> set_state_ret ev (Pipeline (index st)) PLAYING \<noteq> FAILURE"
    and "parse_launch_ok ev (pipeline_str (config s) bad)"
    and "set_state_ret ev (Pipeline (index bad)) PLAYING = FAILURE"
  shows "start_pipelines ev s (pre @ bad # rest) =
           (s\<lparr>pipelines := pipelines s @ map (\<lambda>st. Pipeline (index st)) (pre @ [bad]),
              trace := trace s @ concat (map (pipeline_calls (config s)) (pre @ [bad]))\<rparr>,
            Exit 1)"
  using assms
proof (induction pre arbitrary: s)
  case Nil
  then show ?case
    by (simp add: start_pipelines_step del: start_pipelines.simps)
next
  case (Cons st pre)
  let ?s3 = "s\<lparr>pipelines := pipelines s @ [Pipeline (index st)],
               trace := trace s @ pipeline_calls (config s) st\<rparr>"
  have step: "start_pipelines ev s ((st # pre) @ bad # rest) = start_pipelines ev ?s3 (pre @ bad # rest)"
    using Cons.prems by (simp add: start_pipelines_step del: start_pipelines.simps)
  have c: "ptp_clock ?s3 \<noteq> None" using Cons.prems by simp
  have a: "\<forall>st \<in> set pre. parse_launch_ok ev (pipeline_str (config ?s3) st)
           \<and> set_state_ret ev (Pipeline (index st)) PLAYING \<noteq> FAILURE"
    using Cons.prems by simp
  have p: "parse_launch_ok ev (pipeline_str (config ?s3) bad)" using Cons.prems by simp
  show ?case
    unfolding step Cons.IH [OF c a p Cons.prems(4)] by simp
qed

lemma init_ptp_clock_ok:
  assumes "ptp_init_ok ev" and "ptp_clock_new_ok ev"
  shows "init_ptp_clock ev s =
           (s\<lparr>ptp_clock := Some (PtpClock (case ptpDomain (config s) of None \<Rightarrow> 0 | Some d \<Rightarrow> d)),
              trace := trace s @ clock_calls (config s)\<rparr>, True)"
  using assms by (simp add: init_ptp_clock_def Let_def clock_calls_def emit_def)

lemma calculate_streams_frame [simp]:
  "calculate_streams (s\<lparr>trace := t\<rparr>) = calculate_streams s"
  "calculate_streams (s\<lparr>ptp_clock := c\<rparr>) = calculate_streams s"
  "calculate_streams (s\<lparr>pipelines := ps\<rparr>) = calculate_streams s"
  "calculate_streams (s\<lparr>main_loop := m\<rparr>) = calculate_streams s"
  by (simp_all add: calculate_streams_def Let_def)

lemma shutdown_calls_simps [simp]:
  "shutdown_calls (xs @ ys) = shutdown_calls xs @ shutdown_calls ys"
  "shutdown_calls [] = []"
  by (simp_all add: shutdown_calls_def)

lemma shutdown_calls_pipeline_calls [simp]: "shutdown_calls (pipeline_calls cfg st) = []"
  by (simp add: shutdown_calls_def pipeline_calls_def)

lemma shutdown_calls_concat_pipeline_calls [simp]:
  "shutdown_calls (concat (map (pipeline_calls cfg) sts)) = []"
  by (induction sts) simp_all

lemma shutdown_calls_clock_calls [simp]: "shutdown_calls (clock_calls cfg) = []"
  by (simp add: shutdown_calls_def clock_calls_def)

lemma start_failure:
  assumes "ptp_init_ok ev" and "ptp_clock_new_ok ev"
    and "calculate_streams self = Inr streams"
    and "k < length streams"
    and "\<forall>st \<in> set (take k streams). parse_launch_ok ev (pipeline_str (config self) st)
           \<and> set_state_ret ev (Pipeline (index st)) PLAYING \<noteq> FAILURE"
    and "parse_launch_ok ev (pipeline_str (config self) (streams ! k))"
    and "set_state_ret ev (Pipeline (index (streams ! k))) PLAYING = FAILURE"
  shows "start ev self =
     (self\<lparr>ptp_clock := Some (PtpClock (case ptpDomain (config self) of None \<Rightarrow> 0 | Some d \<Rightarrow> d)),
           pipelines := pipelines self @ map (\<lambda>st. Pipeline (index st)) (take (Suc k) streams),
           trace := trace self @ clock_calls (config self)
             @ concat (map (pipeline_calls (config self)) (take (Suc k) streams))\<rparr>,
      Exit 1)"
proof -
  let ?s1 = "self\<lparr>ptp_clock := Some (PtpClock (case ptpDomain (config self) of None \<Rightarrow> 0 | Some d \<Rightarrow> d)),
              trace := trace self @ clock_calls (config self)\<rparr>"
  have init: "init_ptp_clock ev self = (?s1, True)"
    using assms(1,2) by (rule init_ptp_clock_ok)
  have calc: "calculate_streams ?s1 = Inr streams"
    using assms(3) by simp
  have split: "take k streams @ streams ! k # drop (Suc k) streams = streams"
    using assms(4) by (simp add: id_take_nth_drop [symmetric])
  have c: "ptp_clock ?s1 \<noteq> None" by simp
  have a: "\<forall>st \<in> set (take k streams). parse_launch_ok ev (pipeline_str (config ?s1) st)
           \<and> set_state_ret ev (Pipeline (index st)) PLAYING \<noteq> FAILURE"
    using assms(5) by simp
  have p: "parse_launch_ok ev (pipeline_str (config ?s1) (streams ! k))"
    using assms(6) by simp
  have "start_pipelines ev ?s1 (take k streams @ streams ! k # drop (Suc k) streams) =
          (?s1\<lparr>pipelines := pipelines ?s1 @ map (\<lambda>st. Pipeline (index st)) (take k streams @ [streams ! k]),
               trace := trace ?s1 @ concat (map (pipeline_calls (config ?s1)) (take k streams @ [streams ! k]))\<rparr>,
           Exit 1)"
    by (rule start_pipelines_failure [OF c a p assms(7)])
  then have run: "start_pipelines ev ?s1 streams =
          (?s1\<lparr>pipelines := pipelines ?s1 @ map (\<lambda>st. Pipeline (index st)) (take (Suc k) streams),
               trace := trace ?s1 @ concat (map (pipeline_calls (config ?s1)) (take (Suc k) streams))\<rparr>,
           Exit 1)"
    using assms(4) unfolding split by (simp add: take_Suc_conv_app_nth)
  show ?thesis
    unfolding start_def init by (simp add: assms(3) run)
qed

lemma start_all_ok:
  assumes "ptp_init_ok ev" and "ptp_clock_new_ok ev"
    and "calculate_streams self = Inr streams"
    and "\<forall>st \<in> set streams. parse_launch_ok ev (pipeline_str (config self) st)
           \<and> set_state_ret ev (Pipeline (index st)) PLAYING \<noteq> FAILURE"
  shows "start ev self =
     (self\<lparr>ptp_clock := Some (PtpClock (case ptpDomain (config self) of None \<Rightarrow> 0 | Some d \<Rightarrow> d)),
           pipelines := pipelines self @ map (\<lambda>st. Pipeline (index st)) streams,
           main_loop := True,
           trace := trace self @ clock_calls (config self)
             @ concat (map (pipeline_calls (config self)) streams)
             @ [MainLoopNew, SignalHandlers, MainLoopRun]\<rparr>,
      Return ())"
proof -
  let ?s1 = "self\<lparr>ptp_clock := Some (PtpClock (case ptpDomain (config self) of None \<Rightarrow> 0 | Some d \<Rightarrow> d)),
              trace := trace self @ clock_calls (config self)\<rparr>"
  have init: "init_ptp_clock ev self = (?s1, True)"
    using assms(1,2) by (rule init_ptp_clock_ok)
  have calc: "calculate_streams ?s1 = Inr streams"
    using assms(3) by simp
  have c: "ptp_clock ?s1 \<noteq> None" by simp
  have a: "\<forall>st \<in> set streams. parse_launch_ok ev (pipeline_str (config ?s1) st)
           \<and> set_state_ret ev (Pipeline (index st)) PLAYING \<noteq> FAILURE"
    using assms(4) by simp
  note run = start_pipelines_ok [OF c a]
  show ?thesis
    unfolding start_def init by (simp add: assms(3) run emit_def)
qed

lemma init_ptp_clock_sync_irrelevant:
  "init_ptp_clock (ev\<lparr>wait_for_sync_ok := b\<rparr>) s = init_ptp_clock ev s"
  by (simp add: init_ptp_clock_def Let_def)

lemma create_pipeline_sync_irrelevant:
  "create_pipeline (ev\<lparr>wait_for_sync_ok := b\<rparr>) s st = create_pipeline ev s st"
  by (simp add: create_pipeline_def Let_def)

lemma start_pipelines_sync_irrelevant:
  "start_pipelines (ev\<lparr>wait_for_sync_ok := b\<rparr>) s sts = start_pipelines ev s sts"
  by (induction sts arbitrary: s)
     (simp_all add: create_pipeline_sync_irrelevant Let_def split: prod.splits outcome.splits)

lemma start_sync_irrelevant:
  "start (ev\<lparr>wait_for_sync_ok := b\<rparr>) s = start ev s"
  unfolding start_def init_ptp_clock_sync_irrelevant start_pipelines_sync_irrelevant ..


lemma stop_pipelines_trace: "trace (stop_pipelines ps s) = trace s @ map (\<lambda>p. SetState p NULL) ps"
  by (induction ps arbitrary: s) simp_all

lemma stop_pipelines_frame:
  "config (stop_pipelines ps s) = config s" "pipelines (stop_pipelines ps s) = pipelines s"
  "ptp_clock (stop_pipelines ps s) = ptp_clock s" "main_loop (stop_pipelines ps s) = main_loop s"
  "verbose (stop_pipelines ps s) = verbose s"
  by (induction ps arbitrary: s) simp_all

lemma stop_trace: "trace (fst (stop ev self)) = trace self @ stop_calls ev self"
  by (simp add: stop_def stop_calls_def Let_def stop_pipelines_trace stop_pipelines_frame)

lemma stop_frame:
  "config (fst (stop ev self)) = config self" "pipelines (fst (stop ev self)) = pipelines self"
  "ptp_clock (fst (stop ev self)) = ptp_clock self" "main_loop (fst (stop ev self)) = main_loop self"
  "verbose (fst (stop ev self)) = verbose self"
  by (simp_all add: stop_def Let_def stop_pipelines_frame)

lemma stop_exit: "snd (stop ev self) = Exit 0"
  by (simp add: stop_def Let_def)

lemma stop_calls_frame: "stop_calls ev (fst (stop ev' self)) = stop_calls ev self"
  by (simp add: stop_calls_def stop_frame)

lemma example_streams: "calculate_streams example_sender = Inr example_descriptors"
  by code_simp

lemma example_sender_fields:
  "trace example_sender = [GstInit]" "pipelines example_sender = []"
  "config example_sender = example_config"
  by (simp_all add: example_sender_def)

lemma example_start_failure:
  "start failing_env example_sender =
     (example_sender
        \<lparr>ptp_clock := Some (PtpClock 0),
         pipelines := [Pipeline 0, Pipeline 1],
         trace := [GstInit] @ clock_calls example_config
           @ concat (map (pipeline_calls example_config) example_descriptors)\<rparr>,
      Exit 1)"
proof -
  have i: "ptp_init_ok failing_env" and c: "ptp_clock_new_ok failing_env"
    by (simp_all add: failing_env_def)
  have k: "1 < length example_descriptors"
    by (simp add: example_descriptors_def)
  have pre: "\<forall>st \<in> set (take 1 example_descriptors).
           parse_launch_ok failing_env (pipeline_str (config example_sender) st)
           \<and> set_state_ret failing_env (Pipeline (index st)) PLAYING \<noteq> FAILURE"
    by (simp add: failing_env_def example_descriptors_def)
  have p: "parse_launch_ok failing_env
             (pipeline_str (config example_sender) (example_descriptors ! 1))"
    by (simp add: failing_env_def)
  have f: "set_state_ret failing_env (Pipeline (index (example_descriptors ! 1))) PLAYING
             = FAILURE"
    by (simp add: failing_env_def example_descriptors_def)
  have all: "take (Suc 1) example_descriptors = example_descriptors"
    by (simp add: example_descriptors_def)
  have ps: "map (\<lambda>st. Pipeline (index st)) example_descriptors = [Pipeline 0, Pipeline 1]"
    by (simp add: example_descriptors_def)
  have d: "ptpDomain example_config = None"
    by (simp add: example_config_def)
  show ?thesis
    unfolding start_failure [OF i c example_streams k pre p f] all example_sender_fields ps d
    by simp
qed

section \<open>The claims about the lifecycle\<close>

subsection \<open>C2: how often the body of stop runs\<close>

text \<open>
  C2, as the specification states it: a "stopping" flag is set on entry of the shutdown
  sequence, and a later invocation returns at once, without stopping the pipelines or
  releasing the clock a second time. The object has no such flag. Here the handler of a
  signal runs \<^verbatim>\<open>stop\<close>, which quits the main loop, and an \<^verbatim>\<open>Error\<close> message handled
  on the state it leaves runs the body again: both pipelines are set to \<^verbatim>\<open>NULL\<close>
  twice and \<^verbatim>\<open>ptp_deinit\<close> is called twice.
\<close>

theorem second_stop_repeats_the_shutdown:
  "shutdown_calls
     (trace (fst (handle_event quit_env
                    (fst (handle_event timeout_env running_sender Signal))
                    (BusMessage ERROR 0))))
   = [SetState (Pipeline 0) NULL, SetState (Pipeline 1) NULL, PtpDeinit,
      SetState (Pipeline 0) NULL, SetState (Pipeline 1) NULL, PtpDeinit]"
  by (simp add: handle_event_def on_bus_message_def stop_trace stop_frame stop_calls_def
      shutdown_calls_def running_sender_def timeout_env_def quit_env_def)

text \<open>
  C2, amended: \<^verbatim>\<open>stop\<close> keeps no flag and never returns to its caller. Every
  invocation, whatever triggered it (a signal, \<^verbatim>\<open>KeyboardInterrupt\<close>, an \<^verbatim>\<open>Error\<close>
  or an end-of-stream message), runs the whole body: each pipeline of
  \<^verbatim>\<open>self.pipelines\<close> is set to \<^verbatim>\<open>NULL\<close> in order, a running main loop is quit,
  \<^verbatim>\<open>ptp_deinit\<close> is called when a clock exists, and the process exits with status 0.
  The body leaves the pipelines, the clock and the main loop of the object as they
  were, so run on the state a previous run left, it stops the same pipelines and
  releases the clock again: only the exit of the process keeps the body from running
  twice.
\<close>

theorem stop_runs_its_body_on_every_invocation:
  "snd (stop ev self) = Exit 0
   \<and> trace (fst (stop ev self)) = trace self @ stop_calls ev self
   \<and> pipelines (fst (stop ev self)) = pipelines self
   \<and> ptp_clock (fst (stop ev self)) = ptp_clock self
   \<and> main_loop (fst (stop ev self)) = main_loop self
   \<and> trace (fst (stop ev' (fst (stop ev self))))
       = trace self @ stop_calls ev self @ stop_calls ev' self
   \<and> handle_event ev self Signal = stop ev self
   \<and> handle_event ev self KeyboardInterrupt = stop ev self
   \<and> handle_event ev self (BusMessage ERROR i) = stop ev self
   \<and> handle_event ev self (BusMessage EOS i) = stop ev self"
  by (simp add: stop_exit stop_trace stop_frame stop_calls_frame handle_event_def
      on_bus_message_def)

text \<open>
  The amended C2 on the running sender: the first run quits the main loop, the second
  run finds it quit and makes the other calls again.
\<close>

theorem stop_runs_its_body_on_every_invocation_witness:
  "trace (fst (stop quit_env (fst (stop timeout_env running_sender))))
   = [SetState (Pipeline 0) NULL, SetState (Pipeline 1) NULL, MainLoopQuit, PtpDeinit,
      SetState (Pipeline 0) NULL, SetState (Pipeline 1) NULL, PtpDeinit]"
proof -
  have first: "stop_calls timeout_env running_sender
                 = [SetState (Pipeline 0) NULL, SetState (Pipeline 1) NULL, MainLoopQuit, PtpDeinit]"
    by (simp add: stop_calls_def running_sender_def timeout_env_def)
  have second: "stop_calls quit_env running_sender
                 = [SetState (Pipeline 0) NULL, SetState (Pipeline 1) NULL, PtpDeinit]"
    by (simp add: stop_calls_def running_sender_def timeout_env_def quit_env_def)
  have none: "trace running_sender = []"
    by (simp add: running_sender_def)
  from stop_runs_its_body_on_every_invocation
         [where ev = timeout_env and ev' = quit_env and self = running_sender and i = 0]
  have "trace (fst (stop quit_env (fst (stop timeout_env running_sender))))
       = trace running_sender @ stop_calls timeout_env running_sender
           @ stop_calls quit_env running_sender"
    by blast
  then show ?thesis
    unfolding first second none by simp
qed

subsection \<open>C3: a pipeline that fails to start\<close>

text \<open>
  C3, as the specification states it: when starting a pipeline fails, the shutdown
  sequence runs (every pipeline started before is stopped, the clock is released) before
  the process exits with a non-zero status. With two streams of which the second fails
  to reach \<^verbatim>\<open>PLAYING\<close>, the process exits with status 1, but the first pipeline is
  never set to \<^verbatim>\<open>NULL\<close> and \<^verbatim>\<open>ptp_deinit\<close> is never called.
\<close>

theorem failed_start_runs_no_shutdown:
  "snd (start failing_env example_sender) = Exit 1
   \<and> SetState (Pipeline 0) PLAYING \<in> set (trace (fst (start failing_env example_sender)))
   \<and> SetState (Pipeline 0) NULL \<notin> set (trace (fst (start failing_env example_sender)))
   \<and> PtpDeinit \<notin> set (trace (fst (start failing_env example_sender)))"
  unfolding example_start_failure
  by (simp add: clock_calls_def pipeline_calls_def example_descriptors_def)

text \<open>
  C3, amended: when \<^verbatim>\<open>set_state(PLAYING)\<close> answers \<^verbatim>\<open>FAILURE\<close> for a pipeline,
  \<^verbatim>\<open>start\<close> exits at once with status 1. It does not run the shutdown sequence: the
  calls made are those of the clock initialisation and of the pipelines up to and
  including the failing one, no pipeline is set to \<^verbatim>\<open>NULL\<close>, and \<^verbatim>\<open>ptp_deinit\<close>
  is not called. The streams after the failing one get no pipeline.
\<close>

theorem failed_start_exits_at_once:
  assumes "ptp_init_ok ev" and "ptp_clock_new_ok ev"
    and "calculate_streams self = Inr streams"
    and "k < length streams"
    and "\<forall>st \<in> set (take k streams).
           parse_launch_ok ev (pipeline_str (config self) st)
           \<and> set_state_ret ev (Pipeline (index st)) PLAYING \<noteq> FAILURE"
    and "parse_launch_ok ev (pipeline_str (config self) (streams ! k))"
    and "set_state_ret ev (Pipeline (index (streams ! k))) PLAYING = FAILURE"
  shows "snd (start ev self) = Exit 1
       \<and> exit_status (snd (start ev self)) = Some 1
       \<and> trace (fst (start ev self))
           = trace self @ clock_calls (config self)
               @ concat (map (pipeline_calls (config self)) (take (Suc k) streams))
       \<and> pipelines (fst (start ev self))
           = pipelines self @ map (\<lambda>st. Pipeline (index st)) (take (Suc k) streams)
       \<and> shutdown_calls (trace (fst (start ev self))) = shutdown_calls (trace self)"
  unfolding start_failure [OF assms]
  by (simp add: exit_status_def)

text \<open>The amended C3 on the example: the second of two pipelines fails to start.\<close>

theorem failed_start_exits_at_once_witness:
  "snd (start failing_env example_sender) = Exit 1
   \<and> pipelines (fst (start failing_env example_sender)) = [Pipeline 0, Pipeline 1]
   \<and> shutdown_calls (trace (fst (start failing_env example_sender))) = []"
proof -
  have i: "ptp_init_ok failing_env" and c: "ptp_clock_new_ok failing_env"
    by (simp_all add: failing_env_def)
  have k: "1 < length example_descriptors"
    by (simp add: example_descriptors_def)
  have pre: "\<forall>st \<in> set (take 1 example_descriptors).
           parse_launch_ok failing_env (pipeline_str (config example_sender) st)
           \<and> set_state_ret failing_env (Pipeline (index st)) PLAYING \<noteq> FAILURE"
    by (simp add: failing_env_def example_descriptors_def)
  have p: "parse_launch_ok failing_env
             (pipeline_str (config example_sender) (example_descriptors ! 1))"
    by (simp add: failing_env_def)
  have f: "set_state_ret failing_env (Pipeline (index (example_descriptors ! 1))) PLAYING
             = FAILURE"
    by (simp add: failing_env_def example_descriptors_def)
  note t = failed_start_exits_at_once [OF i c example_streams k pre p f]
  from t have a: "snd (start failing_env example_sender) = Exit 1"
    by (rule conjunct1)
  from t have b: "pipelines (fst (start failing_env example_sender))
           = pipelines example_sender
               @ map (\<lambda>st. Pipeline (index st)) (take (Suc 1) example_descriptors)"
    by blast
  from t have d: "shutdown_calls (trace (fst (start failing_env example_sender)))
           = shutdown_calls (trace example_sender)"
    by blast
  show ?thesis
    unfolding a b d
    by (simp add: example_sender_fields example_descriptors_def shutdown_calls_def)
qed

subsection \<open>C4: the exit status after an error and after end of stream\<close>

text \<open>
  C4, as the specification states it: an \<^verbatim>\<open>Error\<close> message ends the process with a
  non-zero status, an end-of-stream message with status 0. An \<^verbatim>\<open>Error\<close> message on
  the running sender ends the process with status 0.
\<close>

theorem error_message_exits_with_zero:
  "exit_status (snd (on_bus_message timeout_env running_sender ERROR 0)) = Some 0"
  by (simp add: on_bus_message_def stop_exit exit_status_def)

text \<open>
  C4, amended: an \<^verbatim>\<open>Error\<close> message and an end-of-stream message are handled alike.
  Both run \<^verbatim>\<open>stop\<close>, that is the whole shutdown (every pipeline set to \<^verbatim>\<open>NULL\<close>, a
  running main loop quit, the clock released), and both end the process with status 0.
\<close>

theorem error_and_eos_stop_and_exit_zero:
  "on_bus_message ev self ERROR i = stop ev self
   \<and> on_bus_message ev self EOS i = stop ev self
   \<and> trace (fst (on_bus_message ev self ERROR i)) = trace self @ stop_calls ev self
   \<and> trace (fst (on_bus_message ev self EOS i)) = trace self @ stop_calls ev self
   \<and> exit_status (snd (on_bus_message ev self ERROR i)) = Some 0
   \<and> exit_status (snd (on_bus_message ev self EOS i)) = Some 0"
  by (simp add: on_bus_message_def stop_trace stop_exit exit_status_def)

text \<open>The amended C4 on the running sender, for an \<^verbatim>\<open>Error\<close> message of stream 1.\<close>

theorem error_and_eos_stop_and_exit_zero_witness:
  "trace (fst (on_bus_message timeout_env running_sender ERROR 1))
     = [SetState (Pipeline 0) NULL, SetState (Pipeline 1) NULL, MainLoopQuit, PtpDeinit]
   \<and> exit_status (snd (on_bus_message timeout_env running_sender ERROR 1)) = Some 0
   \<and> exit_status (snd (on_bus_message timeout_env running_sender EOS 1)) = Some 0"
proof -
  have calls: "stop_calls timeout_env running_sender
                 = [SetState (Pipeline 0) NULL, SetState (Pipeline 1) NULL, MainLoopQuit, PtpDeinit]"
    by (simp add: stop_calls_def running_sender_def timeout_env_def)
  have none: "trace running_sender = []"
    by (simp add: running_sender_def)
  note t = error_and_eos_stop_and_exit_zero [of timeout_env running_sender 1]
  from t have a: "trace (fst (on_bus_message timeout_env running_sender ERROR 1))
                    = trace running_sender @ stop_calls timeout_env running_sender"
    by blast
  from t have b: "exit_status (snd (on_bus_message timeout_env running_sender ERROR 1)) = Some 0"
    by blast
  from t have c: "exit_status (snd (on_bus_message timeout_env running_sender EOS 1)) = Some 0"
    by blast
  show ?thesis
    unfolding a b c calls none by simp
qed

subsection \<open>C7: a clock that does not synchronise in time\<close>

text \<open>
  C7: when \<^verbatim>\<open>wait_for_sync\<close> times out, \<^verbatim>\<open>init_ptp_clock\<close> still answers
  \<^verbatim>\<open>True\<close>, and \<^verbatim>\<open>start\<close> does exactly what it does after a successful
  synchronisation. In particular, when the partition succeeds and every pipeline can
  be built and started, \<^verbatim>\<open>start\<close> builds and starts a pipeline for every stream, in
  order, and enters the main loop.
\<close>

theorem sync_timeout_is_not_fatal:
  assumes "ptp_init_ok ev" and "ptp_clock_new_ok ev" and "\<not> wait_for_sync_ok ev"
  shows "snd (init_ptp_clock ev self) = True
       \<and> start ev self = start (ev\<lparr>wait_for_sync_ok := True\<rparr>) self
       \<and> (\<forall>streams.
            calculate_streams self = Inr streams
            \<and> (\<forall>st \<in> set streams.
                  parse_launch_ok ev (pipeline_str (config self) st)
                  \<and> set_state_ret ev (Pipeline (index st)) PLAYING \<noteq> FAILURE)
            \<longrightarrow> snd (start ev self) = Return ()
                \<and> pipelines (fst (start ev self))
                    = pipelines self @ map (\<lambda>st. Pipeline (index st)) streams
                \<and> trace (fst (start ev self))
                    = trace self @ clock_calls (config self)
                        @ concat (map (pipeline_calls (config self)) streams)
                        @ [MainLoopNew, SignalHandlers, MainLoopRun])"
proof (intro conjI allI impI)
  show "snd (init_ptp_clock ev self) = True"
    by (simp add: init_ptp_clock_ok [OF assms(1,2)])
  show "start ev self = start (ev\<lparr>wait_for_sync_ok := True\<rparr>) self"
    by (simp add: start_sync_irrelevant)
next
  fix streams
  assume h: "calculate_streams self = Inr streams
            \<and> (\<forall>st \<in> set streams.
                  parse_launch_ok ev (pipeline_str (config self) st)
                  \<and> set_state_ret ev (Pipeline (index st)) PLAYING \<noteq> FAILURE)"
  note run = start_all_ok [OF assms(1,2) conjunct1 [OF h] conjunct2 [OF h]]
  show "snd (start ev self) = Return ()"
    unfolding run by simp
  show "pipelines (fst (start ev self))
          = pipelines self @ map (\<lambda>st. Pipeline (index st)) streams"
    unfolding run by simp
  show "trace (fst (start ev self))
          = trace self @ clock_calls (config self)
              @ concat (map (pipeline_calls (config self)) streams)
              @ [MainLoopNew, SignalHandlers, MainLoopRun]"
    unfolding run by simp
qed

text \<open>C7 on the example: the clock times out, both pipelines are built and started.\<close>

theorem sync_timeout_is_not_fatal_witness:
  "snd (init_ptp_clock timeout_env example_sender) = True
   \<and> snd (start timeout_env example_sender) = Return ()
   \<and> pipelines (fst (start timeout_env example_sender)) = [Pipeline 0, Pipeline 1]
   \<and> SetState (Pipeline 0) PLAYING \<in> set (trace (fst (start timeout_env example_sender)))
   \<and> SetState (Pipeline 1) PLAYING \<in> set (trace (fst (start timeout_env example_sender)))"
proof -
  have i: "ptp_init_ok timeout_env" and c: "ptp_clock_new_ok timeout_env"
    and w: "\<not> wait_for_sync_ok timeout_env"
    by (simp_all add: timeout_env_def)
  note t = sync_timeout_is_not_fatal [OF i c w, of example_sender]
  have ok: "calculate_streams example_sender = Inr example_descriptors
            \<and> (\<forall>st \<in> set example_descriptors.
                  parse_launch_ok timeout_env (pipeline_str (config example_sender) st)
                  \<and> set_state_ret timeout_env (Pipeline (index st)) PLAYING \<noteq> FAILURE)"
    using example_streams by (simp add: timeout_env_def)
  from t have a: "snd (init_ptp_clock timeout_env example_sender) = True"
    by (rule conjunct1)
  from t ok have b: "snd (start timeout_env example_sender) = Return ()"
    by blast
  from t ok have d: "pipelines (fst (start timeout_env example_sender))
          = pipelines example_sender @ map (\<lambda>st. Pipeline (index st)) example_descriptors"
    by blast
  from t ok have e: "trace (fst (start timeout_env example_sender))
          = trace example_sender @ clock_calls (config example_sender)
              @ concat (map (pipeline_calls (config example_sender)) example_descriptors)
              @ [MainLoopNew, SignalHandlers, MainLoopRun]"
    by blast
  show ?thesis
    unfolding a b d e
    by (simp add: example_sender_fields example_descriptors_def pipeline_calls_def)
qed

subsection \<open>C8: a configuration that is not for a sender\<close>

text \<open>
  C8: when \<^verbatim>\<open>deviceMode\<close> is not \<^verbatim>\<open>"sender"\<close> (or is absent), \<^verbatim>\<open>load_config\<close>
  raises the \<^verbatim>\<open>ValueError\<close> "Configuration must be for sender mode", which nobody
  catches: the constructor fails, \<^verbatim>\<open>start\<close> is never reached, so the only call made
  is \<^verbatim>\<open>Gst.init\<close>, \<^verbatim>\<open>ptp_init\<close> is not called, and the process ends with status 1.
\<close>

theorem wrong_device_mode_fails_before_clock_init:
  assumes "deviceMode cfg \<noteq> Some ''sender''"
  shows "load_config (Parsed cfg) = Raise ValueError
       \<and> new_sender (Parsed cfg) verb = Raise ValueError
       \<and> main ev (Parsed cfg) verb = ([GstInit], Raise ValueError)
       \<and> PtpInit \<notin> set (fst (main ev (Parsed cfg) verb))
       \<and> exit_status (snd (main ev (Parsed cfg) verb)) = Some 1"
  using assms by (simp add: load_config_def new_sender_def main_def exit_status_def)

text \<open>C8 on the example configuration with \<^verbatim>\<open>deviceMode\<close> set to \<^verbatim>\<open>"receiver"\<close>.\<close>

theorem wrong_device_mode_fails_before_clock_init_witness:
  "main timeout_env (Parsed (example_config\<lparr>deviceMode := Some ''receiver''\<rparr>)) False
     = ([GstInit], Raise ValueError)
   \<and> exit_status
        (snd (main timeout_env (Parsed (example_config\<lparr>deviceMode := Some ''receiver''\<rparr>)) False))
     = Some 1"
proof -
  have h: "deviceMode (example_config\<lparr>deviceMode := Some ''receiver''\<rparr>) \<noteq> Some ''sender''"
    by simp
  from wrong_device_mode_fails_before_clock_init [OF h, where verb = False and ev = timeout_env]
  show ?thesis
    by blast
qed

section \<open>The claims about the partitioner\<close>

subsection \<open>C1: the descriptors partition the channels\<close>

text \<open>
  C1: for \<open>channelCount > 0\<close> and \<open>channelsPerReceiver > 0\<close>, and a base address
  that the loop body can rewrite (at least four parts, the fourth an integer literal:
  every dotted quad), \<^verbatim>\<open>calculate_streams\<close> returns
  \<open>\<lceil>channelCount / channelsPerReceiver\<rceil>\<close> descriptors. Descriptor \<open>i\<close> has index
  \<open>i\<close>, \<open>start_channel = i * channelsPerReceiver + 1\<close> and \<open>port = basePort + i\<close>, and
  carries between 1 and \<open>channelsPerReceiver\<close> channels. Each channel range starts
  where the one before ends, two different ranges share no channel, and together the
  ranges are the channels 1 to \<open>channelCount\<close>, so their union has \<open>channelCount\<close>
  elements.
\<close>

theorem calculate_streams_partitions_the_channels:
  assumes cc: "channelCount (config self) = cc"
    and cpr: "channelsPerReceiver (config self) = cpr"
    and bp: "rtpDestinationPort (config self) = base_port"
    and ccpos: "0 < cc" and pos: "0 < cpr"
    and parts: "4 \<le> length (py_split CHR ''.'' (baseMulticastAddress (config self)))"
    and octet: "py_int (py_split CHR ''.'' (baseMulticastAddress (config self)) ! 3) = Some b"
  shows "\<exists>streams. calculate_streams self = Inr streams
      \<and> int (length streams) = \<lceil>real_of_int cc / real_of_int cpr\<rceil>
      \<and> (\<forall>i < length streams.
            index (streams ! i) = int i
            \<and> start_channel (streams ! i) = int i * cpr + 1
            \<and> port (streams ! i) = base_port + int i
            \<and> 0 < channels (streams ! i) \<and> channels (streams ! i) \<le> cpr)
      \<and> (\<forall>i. Suc i < length streams \<longrightarrow>
            start_channel (streams ! Suc i) = start_channel (streams ! i) + channels (streams ! i))
      \<and> (\<forall>i < length streams. \<forall>j < length streams. i \<noteq> j \<longrightarrow>
            channel_range (streams ! i) \<inter> channel_range (streams ! j) = {})
      \<and> (\<Union>st \<in> set streams. channel_range st) = {1..cc}
      \<and> int (card (\<Union>st \<in> set streams. channel_range st)) = cc"
proof -
  let ?cfg = "config self"
  define N where "N = (cc + cpr - 1) div cpr"
  define streams where "streams = map (descriptor ?cfg b) (py_range N)"
  have calc: "calculate_streams self = Inr streams"
    using calculate_streams_ok [OF _ parts octet] pos
    by (simp add: streams_def N_def cc cpr)
  have len: "length streams = nat N"
    by (simp add: streams_def length_py_range)
  have "cc \<le> N * cpr"
    unfolding N_def by (rule num_streams_bounds(1) [OF pos])
  with ccpos have "0 < N * cpr" by simp
  with pos have Npos: "0 < N"
    by (simp add: zero_less_mult_iff)
  have count: "int (length streams) = \<lceil>real_of_int cc / real_of_int cpr\<rceil>"
    using Npos by (simp add: len N_def num_streams_ceiling [OF pos])
  have nth: "streams ! i = descriptor ?cfg b (int i)" if "i < length streams" for i
    using that by (simp add: streams_def length_py_range nth_py_range)
  have below: "int i * cpr < cc" if "i < length streams" for i
    using that by (intro index_below [OF pos N_def]) (simp_all add: len)
  have each: "index (streams ! i) = int i
            \<and> start_channel (streams ! i) = int i * cpr + 1
            \<and> port (streams ! i) = base_port + int i
            \<and> 0 < channels (streams ! i) \<and> channels (streams ! i) \<le> cpr"
    if "i < length streams" for i
    using below [OF that] pos by (simp add: nth [OF that] cc cpr bp)
  have next_start: "start_channel (streams ! Suc i) = start_channel (streams ! i) + channels (streams ! i)"
    if "Suc i < length streams" for i
  proof -
    have "int (Suc i) * cpr < cc" using that by (rule below)
    then have "int i * cpr + cpr < cc" by (simp add: algebra_simps)
    then show ?thesis
      using that by (simp add: nth cc cpr algebra_simps)
  qed
  have disjoint: "channel_range (streams ! i) \<inter> channel_range (streams ! j) = {}"
    if "i < length streams" "j < length streams" "i \<noteq> j" for i j
  proof (cases "i < j")
    case True
    then show ?thesis
      using that pos by (simp add: nth ranges_disjoint cpr)
  next
    case False
    with that have "j < i" by simp
    then have "channel_range (descriptor ?cfg b (int j)) \<inter> channel_range (descriptor ?cfg b (int i)) = {}"
      using pos by (intro ranges_disjoint) (simp_all add: cpr)
    then show ?thesis
      using that by (simp add: nth Int_commute)
  qed
  have "(\<Union>st \<in> set streams. channel_range st)
          = (\<Union>i \<in> {0..<N}. channel_range (descriptor ?cfg b i))"
    by (simp add: streams_def set_py_range)
  also have "\<dots> = {1..cc}"
    unfolding N_def by (rule ranges_cover [OF cc cpr pos])
  finally have cover: "(\<Union>st \<in> set streams. channel_range st) = {1..cc}" .
  have size: "int (card (\<Union>st \<in> set streams. channel_range st)) = cc"
    unfolding cover using ccpos by simp
  have each_all: "\<forall>i < length streams.
            index (streams ! i) = int i
            \<and> start_channel (streams ! i) = int i * cpr + 1
            \<and> port (streams ! i) = base_port + int i
            \<and> 0 < channels (streams ! i) \<and> channels (streams ! i) \<le> cpr"
    using each by (intro allI impI)
  have next_all: "\<forall>i. Suc i < length streams \<longrightarrow>
            start_channel (streams ! Suc i) = start_channel (streams ! i) + channels (streams ! i)"
    using next_start by (intro allI impI)
  have disjoint_all: "\<forall>i < length streams. \<forall>j < length streams. i \<noteq> j \<longrightarrow>
            channel_range (streams ! i) \<inter> channel_range (streams ! j) = {}"
    using disjoint by (intro allI impI)
  show ?thesis
    by (intro exI [of _ streams] conjI calc count each_all next_all disjoint_all cover size)
qed

text \<open>C1 on the first scenario of the specification: 16 channels, 8 per receiver.\<close>

theorem calculate_streams_partitions_the_channels_witness:
  "int (length example_descriptors) = \<lceil>real_of_int 16 / real_of_int 8\<rceil>
   \<and> (\<Union>st \<in> set example_descriptors. channel_range st) = {1..16}
   \<and> start_channel (example_descriptors ! 1) = 9
   \<and> port (example_descriptors ! 1) = 5005"
proof -
  have cc: "channelCount (config example_sender) = 16"
    and cpr: "channelsPerReceiver (config example_sender) = 8"
    and bp: "rtpDestinationPort (config example_sender) = 5004"
    by (simp_all add: example_sender_def example_config_def)
  from calculate_streams_partitions_the_channels
         [OF cc cpr bp _ _ example_address]
  obtain streams where s: "calculate_streams example_sender = Inr streams"
    and n: "int (length streams) = \<lceil>real_of_int 16 / real_of_int 8\<rceil>"
    and e: "\<forall>i < length streams.
            index (streams ! i) = int i
            \<and> start_channel (streams ! i) = int i * 8 + 1
            \<and> port (streams ! i) = 5004 + int i
            \<and> 0 < channels (streams ! i) \<and> channels (streams ! i) \<le> 8"
    and u: "(\<Union>st \<in> set streams. channel_range st) = {1..16}"
    by auto
  from s have eq: "streams = example_descriptors"
    by (simp add: example_streams)
  have "1 < length example_descriptors"
    by (simp add: example_descriptors_def)
  with e have "start_channel (example_descriptors ! 1) = 9 \<and> port (example_descriptors ! 1) = 5005"
    unfolding eq by fastforce
  with n u show ?thesis
    unfolding eq by simp
qed

subsection \<open>C5: the last octet past 255\<close>

text \<open>
  C5 states that the last octet of a descriptor's address is
  \<open>(baseLastOctet + index) mod 256\<close>, or else the partitioner raises an error. From the
  base address 239.1.1.255 the second descriptor gets the address 239.1.1.256:
  no error is raised, and the component is 256, where the claim asks for
  \<open>(255 + 1) mod 256 = 0\<close>.
\<close>

theorem last_octet_runs_past_255:
  "calculate_streams overflow_sender =
     Inr [\<lparr>index = 0, multicast = ''239.1.1.255'', port = 5004, channels = 1, start_channel = 1\<rparr>,
          \<lparr>index = 1, multicast = ''239.1.1.256'', port = 5005, channels = 1, start_channel = 2\<rparr>]
   \<and> address_part 3 (baseMulticastAddress (config overflow_sender)) = Some 255
   \<and> address_part 3 ''239.1.1.256'' = Some 256
   \<and> (255 + 1) mod 256 = (0 :: int)"
  by code_simp

subsection \<open>C6: counts that are zero or negative\<close>

text \<open>
  C6, as the specification states it: the partitioner fails whenever
  \<open>channelCount \<le> 0\<close> or \<open>channelsPerReceiver \<le> 0\<close>. With no channel and 8 channels
  per receiver it returns the empty list.
\<close>

theorem no_channels_give_an_empty_list:
  "calculate_streams no_channel_sender = Inr []"
  by code_simp

text \<open>
  C6, amended: \<^verbatim>\<open>calculate_streams\<close> checks neither count. A
  \<open>channelsPerReceiver\<close> of 0 raises \<^verbatim>\<open>ZeroDivisionError\<close>, and a positive
  \<open>channelsPerReceiver\<close> with \<open>channelCount \<le> 0\<close> returns the empty list, whatever
  the base address is.
\<close>

theorem calculate_streams_checks_no_count:
  "(channelsPerReceiver (config self) = 0 \<longrightarrow> calculate_streams self = Inl ZeroDivisionError)
   \<and> (0 < channelsPerReceiver (config self) \<and> channelCount (config self) \<le> 0 \<longrightarrow>
        calculate_streams self = Inr [])"
proof (intro conjI impI)
  assume "channelsPerReceiver (config self) = 0"
  then show "calculate_streams self = Inl ZeroDivisionError"
    by (rule calculate_streams_zero)
next
  assume a: "0 < channelsPerReceiver (config self) \<and> channelCount (config self) \<le> 0"
  then have "(channelCount (config self) + channelsPerReceiver (config self) - 1)
           div channelsPerReceiver (config self) \<le> 0"
    by (intro num_streams_nonpos) simp_all
  with a show "calculate_streams self = Inr []"
    by (intro calculate_streams_empty) simp_all
qed

text \<open>The amended C6 without channels, and with no channel per receiver.\<close>

theorem calculate_streams_checks_no_count_witness:
  "calculate_streams no_channel_sender = Inr []
   \<and> calculate_streams (example_sender\<lparr>config := example_config\<lparr>channelsPerReceiver := 0\<rparr>\<rparr>)
       = Inl ZeroDivisionError"
proof -
  have a: "0 < channelsPerReceiver (config no_channel_sender)
           \<and> channelCount (config no_channel_sender) \<le> 0"
    by (simp add: no_channel_sender_def example_config_def)
  have b: "channelsPerReceiver
             (config (example_sender\<lparr>config := example_config\<lparr>channelsPerReceiver := 0\<rparr>\<rparr>)) = 0"
    by simp
  from calculate_streams_checks_no_count [of no_channel_sender] a
  have "calculate_streams no_channel_sender = Inr []"
    by blast
  moreover
  from calculate_streams_checks_no_count
         [of "example_sender\<lparr>config := example_config\<lparr>channelsPerReceiver := 0\<rparr>\<rparr>"] b
  have "calculate_streams (example_sender\<lparr>config := example_config\<lparr>channelsPerReceiver := 0\<rparr>\<rparr>)
       = Inl ZeroDivisionError"
    by blast
  ultimately show ?thesis
    by (rule conjI)
qed

subsection \<open>C9: the result is a function of four values\<close>

text \<open>
  C9: \<^verbatim>\<open>calculate_streams\<close> assigns nothing and calls no collaborator, so in the
  model it only returns a value; and that value is determined by \<open>channelCount\<close>,
  \<open>channelsPerReceiver\<close>, \<open>baseMulticastAddress\<close> and \<open>rtpDestinationPort\<close>: two
  objects that agree on these four, whatever else they hold, get the same result (the
  same list, or the same error).
\<close>

theorem calculate_streams_is_a_function_of_four_values:
  assumes "channelCount (config self1) = channelCount (config self2)"
    and "channelsPerReceiver (config self1) = channelsPerReceiver (config self2)"
    and "baseMulticastAddress (config self1) = baseMulticastAddress (config self2)"
    and "rtpDestinationPort (config self1) = rtpDestinationPort (config self2)"
  shows "calculate_streams self1 = calculate_streams self2"
  using assms(1,2) by (simp add: calculate_streams_def Let_def collect_streams_cong [OF assms])

text \<open>
  C9 on two senders that differ in the other keys of the configuration, in their
  pipelines, clock, main loop and trace.
\<close>

theorem calculate_streams_is_a_function_of_four_values_witness:
  "calculate_streams
     (running_sender\<lparr>config := example_config\<lparr>jackClientName := ''other'', samplingRate := 44100,
                                                ptpDomain := Some 3\<rparr>\<rparr>)
   = calculate_streams example_sender"
  by (rule calculate_streams_is_a_function_of_four_values)
     (simp_all add: running_sender_def example_sender_def)

subsection \<open>C10: when calculate_streams returns\<close>

text \<open>
  C10, as stated: for \<open>channelsPerReceiver \<ge> 1\<close> and a base address of at least four
  parts whose fourth part is an integer literal, \<^verbatim>\<open>calculate_streams\<close> returns for
  every \<open>channelCount\<close>, and when \<open>baseLastOctet + index\<close> exceeds 255 the last
  component of the address is greater than 255. The loop body rewrites the fourth
  part, which is not the last one of an address of five parts: from 1.2.3.255.9 the
  second address is 1.2.3.256.9, and its last component is 9.
\<close>

theorem five_part_address_keeps_its_last_component:
  "calculate_streams five_part_sender =
     Inr [\<lparr>index = 0, multicast = ''1.2.3.255.9'', port = 5004, channels = 1, start_channel = 1\<rparr>,
          \<lparr>index = 1, multicast = ''1.2.3.256.9'', port = 5005, channels = 1, start_channel = 2\<rparr>]
   \<and> address_part 3 (baseMulticastAddress (config five_part_sender)) = Some 255
   \<and> last_part ''1.2.3.256.9'' = Some 9"
  by code_simp

text \<open>
  C10, amended: under the same conditions \<^verbatim>\<open>calculate_streams\<close> returns a list for
  every \<open>channelCount\<close>, the empty list when \<open>channelCount \<le> 0\<close>. The fourth component
  of the address of descriptor \<open>i\<close> reads as \<open>baseLastOctet + i\<close>, so it is greater than
  255 when that sum is; it is the last component when the base address has exactly
  four parts.
\<close>

theorem calculate_streams_returns_for_every_channel_count:
  assumes cpr: "1 \<le> channelsPerReceiver (config self)"
    and parts: "4 \<le> length (py_split CHR ''.'' (baseMulticastAddress (config self)))"
    and octet: "py_int (py_split CHR ''.'' (baseMulticastAddress (config self)) ! 3) = Some b"
  shows "\<exists>streams. calculate_streams self = Inr streams
     \<and> (channelCount (config self) \<le> 0 \<longrightarrow> streams = [])
     \<and> (\<forall>i < length streams. address_part 3 (multicast (streams ! i)) = Some (b + int i))
     \<and> (\<forall>i < length streams. 255 < b + int i \<longrightarrow>
           (\<exists>v. address_part 3 (multicast (streams ! i)) = Some v \<and> 255 < v))
     \<and> (length (py_split CHR ''.'' (baseMulticastAddress (config self))) = 4 \<longrightarrow>
           (\<forall>i < length streams. last_part (multicast (streams ! i)) = Some (b + int i)))"
proof -
  let ?cfg = "config self"
  let ?parts = "py_split CHR ''.'' (baseMulticastAddress ?cfg)"
  define N where "N = (channelCount ?cfg + channelsPerReceiver ?cfg - 1) div channelsPerReceiver ?cfg"
  define streams where "streams = map (descriptor ?cfg b) (py_range N)"
  have pos: "0 < channelsPerReceiver ?cfg"
    using cpr by simp
  have calc: "calculate_streams self = Inr streams"
    using calculate_streams_ok [OF _ parts octet] pos
    by (simp add: streams_def N_def)
  have empty: "channelCount ?cfg \<le> 0 \<longrightarrow> streams = []"
  proof
    assume "channelCount ?cfg \<le> 0"
    then have "N \<le> 0"
      unfolding N_def by (rule num_streams_nonpos [OF pos])
    then show "streams = []"
      by (simp add: streams_def py_range_def)
  qed
  have nth: "streams ! i = descriptor ?cfg b (int i)" if "i < length streams" for i
    using that by (simp add: streams_def length_py_range nth_py_range)
  have plain: "\<forall>p \<in> set ?parts. CHR ''.'' \<notin> set p"
    using py_split_no_sep by blast
  have fourth: "\<forall>i < length streams. address_part 3 (multicast (streams ! i)) = Some (b + int i)"
  proof (intro allI impI)
    fix i assume i: "i < length streams"
    have "3 < length ?parts" using parts by simp
    then show "address_part 3 (multicast (streams ! i)) = Some (b + int i)"
      unfolding nth [OF i] descriptor_fields by (rule address_part_rewritten [OF _ plain])
  qed
  have beyond: "\<forall>i < length streams. 255 < b + int i \<longrightarrow>
           (\<exists>v. address_part 3 (multicast (streams ! i)) = Some v \<and> 255 < v)"
    using fourth by simp
  have final: "length ?parts = 4 \<longrightarrow>
           (\<forall>i < length streams. last_part (multicast (streams ! i)) = Some (b + int i))"
  proof (intro allI impI)
    fix i assume four: "length ?parts = 4" and i: "i < length streams"
    show "last_part (multicast (streams ! i)) = Some (b + int i)"
      unfolding nth [OF i] descriptor_fields by (rule last_part_rewritten [OF four plain])
  qed
  show ?thesis
    by (intro exI [of _ streams] conjI calc empty fourth beyond final)
qed

text \<open>The amended C10 on the base address 239.1.1.255 with two streams.\<close>

theorem calculate_streams_returns_for_every_channel_count_witness:
  "address_part 3 ''239.1.1.256'' = Some 256 \<and> last_part ''239.1.1.256'' = Some 256"
proof -
  have cpr: "1 \<le> channelsPerReceiver (config overflow_sender)"
    by (simp add: overflow_sender_def)
  from calculate_streams_returns_for_every_channel_count [OF cpr overflow_address(1,3)]
  obtain streams where s: "calculate_streams overflow_sender = Inr streams"
    and f: "\<forall>i < length streams. address_part 3 (multicast (streams ! i)) = Some (255 + int i)"
    and l: "length (py_split CHR ''.'' (baseMulticastAddress (config overflow_sender))) = 4 \<longrightarrow>
           (\<forall>i < length streams. last_part (multicast (streams ! i)) = Some (255 + int i))"
    by blast
  from s have eq: "streams =
     [\<lparr>index = 0, multicast = ''239.1.1.255'', port = 5004, channels = 1, start_channel = 1\<rparr>,
      \<lparr>index = 1, multicast = ''239.1.1.256'', port = 5005, channels = 1, start_channel = 2\<rparr>]"
    by (simp add: overflow_streams)
  have one: "1 < length streams"
    by (simp add: eq)
  from f one have "address_part 3 (multicast (streams ! 1)) = Some (255 + int 1)"
    by blast
  moreover from l overflow_address(2) one
  have "last_part (multicast (streams ! 1)) = Some (255 + int 1)"
    by blast
  ultimately show ?thesis
    by (simp add: eq)
qed

end
